theory Spec2Isabelle
  imports Complex_Main "HOL-Library.AList" "HOL-Library.Sublist" "HOL-Library.Multiset"
begin

text \<open>
  The content generator has two programs that share no state: a server, which keeps an
  in-memory store of Jobs and runs one file at a time through fetch, generation, upload
  and reconciliation, and a batch tool, which rotates API keys, retries the generation
  call and runs a queue of workers over a batch of files. Both are modelled below from
  their sources: module variables as records passed through the functions, thrown errors
  as \<open>Inl\<close> of their message, the answers of awaited calls as parameters.
\<close>

section \<open>The server (src/server.ts): job store and single-item pipeline\<close>

subsection \<open>Data model\<close>

text \<open>
  The \<^verbatim>\<open>Job\<close> interface. \<^verbatim>\<open>result\<close> is only ever
  \<^verbatim>\<open>{ generatedUrl: ... }\<close>, so it is modelled by that URL; an optional
  field that is absent is \<open>None\<close>. Timestamps are the milliseconds of
  \<^verbatim>\<open>Date.now()\<close>.
\<close>

datatype status = Pending | Processing | Completed | Failed

record Job =
  id' :: string
  fileId :: string
  status :: status
  progress :: int
  message :: string
  result :: "string option"
  error :: "string option"
  startTime :: nat
  endTime :: "nat option"

text \<open>
  \<^verbatim>\<open>Partial<Job>\<close>: every field of \<^verbatim>\<open>Job\<close>, each optional. \<open>None\<close>
  is a key that the update object does not have.
\<close>

record Partial_Job =
  set_id :: "string option"
  set_fileId :: "string option"
  set_status :: "status option"
  set_progress :: "int option"
  set_message :: "string option"
  set_result :: "string option"
  set_error :: "string option"
  set_startTime :: "nat option"
  set_endTime :: "nat option"

definition no_updates :: Partial_Job where
  "no_updates = \<lparr>set_id = None, set_fileId = None, set_status = None, set_progress = None,
     set_message = None, set_result = None, set_error = None, set_startTime = None,
     set_endTime = None\<rparr>"

text \<open>
  What the server does to the outside, and (for the statements about a Job's lifetime)
  every value a Job takes: \<open>Job_created\<close> is \<^verbatim>\<open>jobs.set(jobId, job)\<close>,
  \<open>Job_updated\<close> the Job as \<^verbatim>\<open>updateJob(jobId, ...)\<close> leaves it. \<open>Client_write\<close> is
  the server-sent event written to the subscriber of a file id (step, progress, message,
  jobId). The others are the outbound calls: \<^verbatim>\<open>axios.get(url)\<close>,
  \<^verbatim>\<open>generateContent\<close> (api key, model, contents), the Cloudinary upload
  (content, file id and timestamp of the public id), \<^verbatim>\<open>axios.put\<close> on the
  file's record (file id, completedTimestamp), and the warning of the swallowed failure.
\<close>

datatype event =
    Job_created string Job
  | Job_updated string Job
  | Client_write string status int string string
  | Http_get string
  | Generate_content "string option" string string
  | Cloudinary_upload string string nat
  | Http_put string nat
  | Console_warn string

text \<open>
  The module's state: \<^verbatim>\<open>jobs\<close> is a \<^verbatim>\<open>Map\<close> (insertion ordered, a
  \<^verbatim>\<open>set\<close> on a present key replaces the value in place: \<open>AList.update\<close>);
  \<^verbatim>\<open>clients\<close> is represented by its keys.
\<close>

record server =
  jobs :: "(string \<times> Job) list"
  clients :: "string list"
  trace :: "event list"

subsection \<open>updateJob\<close>

definition keep_or :: "'a \<Rightarrow> 'a option \<Rightarrow> 'a" where
  "keep_or old new = (case new of None \<Rightarrow> old | Some v \<Rightarrow> v)"

definition keep_or_opt :: "'a option \<Rightarrow> 'a option \<Rightarrow> 'a option" where
  "keep_or_opt old new = (case new of None \<Rightarrow> old | Some v \<Rightarrow> Some v)"

text \<open>\<^verbatim>\<open>Object.assign(job, updates)\<close>\<close>

definition assign :: "Job \<Rightarrow> Partial_Job \<Rightarrow> Job" where
  "assign job updates =
     \<lparr>id' = keep_or (id' job) (set_id updates),
      fileId = keep_or (fileId job) (set_fileId updates),
      status = keep_or (status job) (set_status updates),
      progress = keep_or (progress job) (set_progress updates),
      message = keep_or (message job) (set_message updates),
      result = keep_or_opt (result job) (set_result updates),
      error = keep_or_opt (error job) (set_error updates),
      startTime = keep_or (startTime job) (set_startTime updates),
      endTime = keep_or_opt (endTime job) (set_endTime updates)\<rparr>"

definition is_terminal_update :: "Partial_Job \<Rightarrow> bool" where
  "is_terminal_update updates =
     (set_status updates = Some Completed \<or> set_status updates = Some Failed)"

definition notify :: "Job \<Rightarrow> server \<Rightarrow> server" where
  "notify job s =
     (if List.member (clients s) (fileId job)
      then s\<lparr>trace := trace s @
             [Client_write (fileId job) (status job) (progress job) (message job) (id' job)]\<rparr>
      else s)"

text \<open>
  \<^verbatim>\<open>updateJob(jobId, updates)\<close>; \<open>now\<close> is what \<^verbatim>\<open>Date.now()\<close> returns
  if it is called.
\<close>

definition updateJob :: "nat \<Rightarrow> string \<Rightarrow> Partial_Job \<Rightarrow> server \<Rightarrow> server" where
  "updateJob now jobId updates s =
     (case map_of (jobs s) jobId of
        None \<Rightarrow> s
      | Some job \<Rightarrow>
          let job1 = assign job updates;
              job2 = (if is_terminal_update updates then job1\<lparr>endTime := Some now\<rparr> else job1)
          in notify job2
               (s\<lparr>jobs := AList.update jobId job2 (jobs s),
                  trace := trace s @ [Job_updated jobId job2]\<rparr>))"

definition find_job :: "server \<Rightarrow> string \<Rightarrow> Job option" where
  "find_job s jobId = map_of (jobs s) jobId"

text \<open>The successive values of the Job stored under \<open>jobId\<close>, read off a trace.\<close>

fun job_values :: "string \<Rightarrow> event list \<Rightarrow> Job list" where
  "job_values jobId [] = []"
| "job_values jobId (Job_created k job # evs) =
     (if k = jobId then job # job_values jobId evs else job_values jobId evs)"
| "job_values jobId (Job_updated k job # evs) =
     (if k = jobId then job # job_values jobId evs else job_values jobId evs)"
| "job_values jobId (e # evs) = job_values jobId evs"

definition job_history :: "server \<Rightarrow> string \<Rightarrow> Job list" where
  "job_history s jobId = job_values jobId (trace s)"

text \<open>The \<^verbatim>\<open>axios.put\<close> calls of a trace (the reconciliation with the record store).\<close>

fun http_puts :: "event list \<Rightarrow> (string \<times> nat) list" where
  "http_puts [] = []"
| "http_puts (Http_put fid t # evs) = (fid, t) # http_puts evs"
| "http_puts (e # evs) = http_puts evs"

text \<open>The \<^verbatim>\<open>generateContent\<close> calls of a trace.\<close>

fun generate_calls :: "event list \<Rightarrow> (string option \<times> string \<times> string) list" where
  "generate_calls [] = []"
| "generate_calls (Generate_content key mdl contents # evs) =
     (key, mdl, contents) # generate_calls evs"
| "generate_calls (e # evs) = generate_calls evs"

text \<open>
  Between two successive values of a Job, progress does not go down unless the second
  value is a failed Job.
\<close>

fun decreases_only_on_failed :: "Job list \<Rightarrow> bool" where
  "decreases_only_on_failed [] = True"
| "decreases_only_on_failed [a] = True"
| "decreases_only_on_failed (a # b # rest) =
     ((progress a \<le> progress b \<or> status b = Failed) \<and> decreases_only_on_failed (b # rest))"

subsection \<open>getGemini\<close>

datatype client = GoogleGenAI "string option"

definition nth_opt :: "'a list \<Rightarrow> nat \<Rightarrow> 'a option" where
  "nth_opt xs i = (if i < length xs then Some (xs ! i) else None)"

text \<open>
  The filter of \<^verbatim>\<open>getGemini\<close>:
  \<^verbatim>\<open>k && !k.includes('YOUR_API_KEY') && k !== 'MY_GEMINI_API_KEY'\<close>.
\<close>

definition valid_key :: "string \<Rightarrow> bool" where
  "valid_key k = (k \<noteq> [] \<and> \<not> sublist ''YOUR_API_KEY'' k \<and> k \<noteq> ''MY_GEMINI_API_KEY'')"

text \<open>
  \<^verbatim>\<open>Math.random()\<close> returns a double in \<open>[0, 1)\<close>. Every such double is
  \<open>mantissa / 2 ^ scale\<close> for a mantissa below \<open>2 ^ 53\<close> and a scale from 53 to
  1074, and every such quotient is one.
\<close>

record unit_double =
  mantissa :: nat
  scale :: nat

definition is_unit_double :: "unit_double \<Rightarrow> bool" where
  "is_unit_double d = (mantissa d < 2 ^ 53 \<and> 53 \<le> scale d \<and> scale d \<le> 1074)"

text \<open>The number of binary digits of a natural number.\<close>

fun bit_length :: "nat \<Rightarrow> nat" where
  "bit_length n = (if n = 0 then 0 else Suc (bit_length (n div 2)))"

declare bit_length.simps [simp del]

text \<open>
  The product of two doubles is the exact product rounded to 53 significant binary
  digits, to the nearest and on a tie to the even one. \<open>round_to_53_bits P\<close> does this
  to the numerator \<open>P\<close> of the exact product: the last \<open>bit_length P - 53\<close> digits are
  rounded away (none when \<open>P\<close> has at most 53 digits: the product is then a double).
\<close>

definition round_to_53_bits :: "nat \<Rightarrow> nat" where
  "round_to_53_bits P =
     (let s = bit_length P - 53; q = P div 2 ^ s; rest = P mod 2 ^ s
      in if 2 ^ s < 2 * rest \<or> (2 * rest = 2 ^ s \<and> odd q)
         then (q + 1) * 2 ^ s else q * 2 ^ s)"

text \<open>
  \<^verbatim>\<open>Math.floor(Math.random() * validKeys.length)\<close>, for the double \<open>d\<close> that
  \<^verbatim>\<open>Math.random()\<close> returns and the length \<open>n\<close> (an array length is below
  \<open>2 ^ 32\<close>, so it is a double as it is): the exact product is \<open>mantissa d * n / 2 ^ scale d\<close>, the multiplication
  rounds it, and the floor of the rounded product is taken.
\<close>

definition floor_of_product :: "unit_double \<Rightarrow> nat \<Rightarrow> nat" where
  "floor_of_product d n = round_to_53_bits (mantissa d * n) div 2 ^ scale d"

text \<open>
  \<^verbatim>\<open>getGemini(providedKeys)\<close>. \<open>env_key\<close> is
  \<^verbatim>\<open>process.env.GEMINI_API_KEY\<close>, \<open>rnd\<close> the value of
  \<^verbatim>\<open>Math.random()\<close>, \<open>providedKeys\<close> is \<open>None\<close> when the
  argument is not an array. \<open>Inl\<close> is the message of the error thrown. With no
  provided key that is valid, the key of the environment is checked and used.
\<close>

definition getGemini ::
  "string option \<Rightarrow> unit_double \<Rightarrow> string list option \<Rightarrow> string + client" where
  "getGemini env_key rnd providedKeys =
     (let validKeys = (case providedKeys of None \<Rightarrow> [] | Some ks \<Rightarrow> filter valid_key ks)
      in if validKeys \<noteq> []
         then Inr (GoogleGenAI (nth_opt validKeys (floor_of_product rnd (length validKeys))))
         else (case env_key of
                 None \<Rightarrow> Inl ''GEMINI_API_KEY is not defined in environment variables and no valid keys were provided in the request.''
               | Some apiKey \<Rightarrow>
                   if apiKey = []
                   then Inl ''GEMINI_API_KEY is not defined in environment variables and no valid keys were provided in the request.''
                   else if apiKey = ''MY_GEMINI_API_KEY'' \<or> sublist ''YOUR_API_KEY'' apiKey
                   then Inl ''Invalid GEMINI_API_KEY detected. Please configure your API key.''
                   else Inr (GoogleGenAI (Some apiKey))))"

subsection \<open>processFile\<close>

record config =
  cloudName :: string
  apiKey :: string
  apiSecret :: string
  geminiApiKeys :: "string list option"
  model :: "string option"

text \<open>
  What one invocation of \<^verbatim>\<open>processFile\<close> gets from outside: the readings of
  \<^verbatim>\<open>Date.now()\<close> and the outcome of each awaited call, \<open>Inl\<close> the
  message of the error it throws. \<open>get_prompt\<close> is the prompt text of
  \<^verbatim>\<open>axios.get(fileUrl)\<close>, \<open>generated\<close> is \<^verbatim>\<open>result.text\<close>
  (\<open>None\<close> for \<^verbatim>\<open>undefined\<close>), \<open>uploaded\<close> is \<^verbatim>\<open>secure_url\<close>.
  \<open>now_end\<close> is the clock when the Job is set completed or failed: no other
  \<^verbatim>\<open>updateJob\<close> of the invocation reads the clock. A call that never settles
  is not an outcome: the statements are about invocations that finish.
\<close>

record run =
  now_start :: nat
  get_prompt :: "string + string"
  env_GEMINI_API_KEY :: "string option"
  random :: unit_double
  generated :: "string + string option"
  now_upload :: nat
  uploaded :: "string + string"
  now_put :: nat
  put_done :: "string + unit"
  now_end :: nat

text \<open>The object returned on success.\<close>

record outcome =
  out_jobId :: string
  out_fileId :: string
  generatedUrl :: string
  content :: string

definition emit :: "event \<Rightarrow> server \<Rightarrow> server" where
  "emit e s = s\<lparr>trace := trace s @ [e]\<rparr>"

definition progress_update :: "int \<Rightarrow> string \<Rightarrow> Partial_Job" where
  "progress_update p m = no_updates\<lparr>set_progress := Some p, set_message := Some m\<rparr>"

text \<open>Lines 184 to 195: the Job is created and set to processing, before the \<^verbatim>\<open>try\<close>.\<close>

definition processFile_start :: "run \<Rightarrow> string \<Rightarrow> string \<Rightarrow> server \<Rightarrow> server" where
  "processFile_start r jobId fileId' s =
     (let job = \<lparr>id' = jobId, fileId = fileId', status = Pending, progress = 0,
                 message = ''Job created'', result = None, error = None,
                 startTime = now_start r, endTime = None\<rparr>
      in updateJob (now_end r) jobId
           ((progress_update 5 ''Starting processing...'')\<lparr>set_status := Some Processing\<rparr>)
           (s\<lparr>jobs := AList.update jobId job (jobs s), trace := trace s @ [Job_created jobId job]\<rparr>))"

text \<open>
  \<^verbatim>\<open>result.text || ''\<close> followed by
  \<^verbatim>\<open>if (!generatedContent) throw new Error('Gemini returned empty content')\<close>, inside
  the \<^verbatim>\<open>try\<close> whose \<^verbatim>\<open>catch\<close> rewraps the message.
\<close>

definition generation_step :: "string + string option \<Rightarrow> string + string" where
  "generation_step g =
     (case g of
        Inl m \<Rightarrow> Inl (''Gemini generation failed: '' @ m)
      | Inr text \<Rightarrow>
          let generatedContent = (case text of None \<Rightarrow> [] | Some t \<Rightarrow> t)
          in if generatedContent = []
             then Inl (''Gemini generation failed: '' @ ''Gemini returned empty content'')
             else Inr generatedContent)"

text \<open>
  Lines 184 to 204, the synchronous part of an invocation: it runs without interruption
  up to the first \<^verbatim>\<open>await\<close>, that of \<^verbatim>\<open>axios.get(fileUrl)\<close>. Other
  invocations and timers run only while an invocation awaits.
\<close>

definition processFile_begin :: "run \<Rightarrow> string \<Rightarrow> string \<Rightarrow> string \<Rightarrow> server \<Rightarrow> server" where
  "processFile_begin r jobId fileId' fileUrl s =
     emit (Http_get fileUrl)
       (updateJob (now_end r) jobId (progress_update 10 ''Fetching prompt from source...'')
          (processFile_start r jobId fileId' s))"

text \<open>
  The inner \<^verbatim>\<open>try\<close> around \<^verbatim>\<open>axios.put\<close>: its \<^verbatim>\<open>catch\<close>
  only warns.
\<close>

definition swallow_put_failure :: "string \<Rightarrow> string + unit \<Rightarrow> server \<Rightarrow> server" where
  "swallow_put_failure jobId put_result s =
     (case put_result of
        Inl m \<Rightarrow>
          emit (Console_warn
                  (''['' @ jobId @ ''] Warning: Failed to update status on external API.'')) s
      | Inr u \<Rightarrow> s)"

text \<open>The \<^verbatim>\<open>updateJob\<close> of the outer \<^verbatim>\<open>catch\<close>, for an error with message \<open>m\<close>.\<close>

definition fail_job :: "run \<Rightarrow> string \<Rightarrow> string \<Rightarrow> server \<Rightarrow> server" where
  "fail_job r jobId m s =
     updateJob (now_end r) jobId
       ((progress_update 0 (if m = [] then ''An error occurred'' else m))
          \<lparr>set_status := Some Failed, set_error := Some m\<rparr>) s"

text \<open>
  The rest of the outer \<^verbatim>\<open>try\<close>, from the answer of \<^verbatim>\<open>axios.get\<close> on:
  \<open>Inl\<close> is the message of the error that reaches the outer \<^verbatim>\<open>catch\<close>, with
  the state at the throw.
\<close>

definition processFile_try ::
  "run \<Rightarrow> string \<Rightarrow> string \<Rightarrow> config \<Rightarrow> server \<Rightarrow> (string + outcome) \<times> server" where
  "processFile_try r jobId fileId' cfg s1 =
     (case get_prompt r of
         Inl m \<Rightarrow> (Inl (''Failed to fetch prompt file: '' @ m), s1)
       | Inr promptText \<Rightarrow>
      let s2 = updateJob (now_end r) jobId
                 (progress_update 30 ''Generating content with Gemini...'') s1
      in case getGemini (env_GEMINI_API_KEY r) (random r) (geminiApiKeys cfg) of
         Inl m \<Rightarrow> (Inl m, s2)
       | Inr (GoogleGenAI key) \<Rightarrow>
      let selectedModel = (case model cfg of
                             None \<Rightarrow> ''gemini-3-flash-preview''
                           | Some m \<Rightarrow> if m = [] then ''gemini-3-flash-preview'' else m);
          s3 = emit (Generate_content key selectedModel promptText) s2
      in case generation_step (generated r) of
         Inl m \<Rightarrow> (Inl m, s3)
       | Inr generatedContent \<Rightarrow>
      let s4 = emit (Cloudinary_upload generatedContent fileId' (now_upload r))
                 (updateJob (now_end r) jobId
                    (progress_update 70 ''Uploading to Cloudinary...'') s3)
      in case uploaded r of
         Inl m \<Rightarrow> (Inl (''Cloudinary upload failed: '' @ m), s4)
       | Inr secure_url \<Rightarrow>
      let s5 = emit (Http_put fileId' (now_put r))
                 (updateJob (now_end r) jobId
                    (progress_update 90 ''Updating external API status...'') s4);
          s6 = swallow_put_failure jobId (put_done r) s5;
          s7 = updateJob (now_end r) jobId
                 ((progress_update 100 ''Process completed successfully!'')
                    \<lparr>set_status := Some Completed, set_result := Some secure_url\<rparr>) s6
      in (Inr \<lparr>out_jobId = jobId, out_fileId = fileId', generatedUrl = secure_url,
                content = generatedContent\<rparr>, s7))"

text \<open>
  \<^verbatim>\<open>processFile(fileId, fileUrl, config)\<close>; \<open>jobId\<close> is what
  \<^verbatim>\<open>randomUUID()\<close> returns. \<open>Inl\<close> is the message of the error rethrown by
  the outer \<^verbatim>\<open>catch\<close>, after it has set the Job to failed.
\<close>

definition processFile ::
  "run \<Rightarrow> string \<Rightarrow> string \<Rightarrow> string \<Rightarrow> config \<Rightarrow> server \<Rightarrow> (string + outcome) \<times> server" where
  "processFile r jobId fileId' fileUrl cfg s =
     (case processFile_try r jobId fileId' cfg (processFile_begin r jobId fileId' fileUrl s) of
        (Inr out, s') \<Rightarrow> (Inr out, s')
      | (Inl m, s') \<Rightarrow> (Inl m, fail_job r jobId m s'))"

subsection \<open>runAutomation\<close>

record FileRecord =
  file_id :: string
  secureUrl :: string
  file_status :: string

text \<open>
  \<^verbatim>\<open>Array.from(jobs.values()).some(j => j.fileId === file.id &&
  (j.status === 'processing' || j.status === 'pending'))\<close>
\<close>

definition isProcessing :: "server \<Rightarrow> string \<Rightarrow> bool" where
  "isProcessing s fid =
     list_ex (\<lambda>j. fileId j = fid \<and> (status j = Processing \<or> status j = Pending))
       (map snd (jobs s))"

text \<open>
  The loop over the pending files. \<open>supply k\<close> is the environment of the pipeline run
  for the \<open>k\<close>-th pending file and the job id it draws; a rethrown error is caught and
  logged, so only the state is kept.
\<close>

fun automation_loop ::
  "(nat \<Rightarrow> run \<times> string) \<Rightarrow> config \<Rightarrow> nat \<Rightarrow> FileRecord list \<Rightarrow> server \<Rightarrow> server" where
  "automation_loop supply auto_config k [] s = s"
| "automation_loop supply auto_config k (file # rest) s =
     (if isProcessing s (file_id file)
      then automation_loop supply auto_config (Suc k) rest s
      else automation_loop supply auto_config (Suc k) rest
             (snd (processFile (fst (supply k)) (snd (supply k)) (file_id file)
                     (secureUrl file) auto_config s)))"

text \<open>
  \<^verbatim>\<open>runAutomation\<close>: \<open>listing\<close> is the outcome of
  \<^verbatim>\<open>axios.get(EXTERNAL_API_URL)\<close>; its failure is logged and ends the cycle.
\<close>

definition runAutomation ::
  "string + FileRecord list \<Rightarrow> (nat \<Rightarrow> run \<times> string) \<Rightarrow> config \<Rightarrow> server \<Rightarrow> server" where
  "runAutomation listing supply auto_config s =
     (case listing of
        Inl m \<Rightarrow> s
      | Inr files \<Rightarrow>
          automation_loop supply auto_config 0
            (filter (\<lambda>f. file_status f = ''Pending'') files) s)"

text \<open>The Jobs of a file id that are pending or processing.\<close>

definition non_terminal_jobs :: "server \<Rightarrow> string \<Rightarrow> Job list" where
  "non_terminal_jobs s fid =
     filter (\<lambda>j. fileId j = fid \<and> (status j = Processing \<or> status j = Pending))
       (map snd (jobs s))"

text \<open>
  The values of a Job recorded between two states of the server, the second reached
  from the first.
\<close>

definition recorded :: "server \<Rightarrow> server \<Rightarrow> string \<Rightarrow> Job list" where
  "recorded s s' jobId = drop (length (job_history s jobId)) (job_history s' jobId)"

section \<open>The batch tool (src/unnamed/part_000): key rotation, retry, queue\<close>

subsection \<open>Key rotation\<close>

text \<open>
  The module's state: the keys loaded at startup (the module throws there when none is
  found, so the list is not empty), the rotation index, and the
  \<^verbatim>\<open>generateContent\<close> calls made so far (api key, model, contents) with the other
  outbound effects.
\<close>

datatype effect =
    Get string
  | Write_file string string
  | Put string nat

record batch =
  apiKeys :: "string list"
  keyIndex :: nat
  calls :: "(string option \<times> string \<times> string) list"
  effects :: "effect list"

text \<open>
  \<^verbatim>\<open>getNextGemini()\<close>. With no key, \<^verbatim>\<open>% apiKeys.length\<close> would be
  \<^verbatim>\<open>NaN\<close>; the startup check excludes it, and the statements below assume a key.
\<close>

definition getNextGemini :: "batch \<Rightarrow> client \<times> batch" where
  "getNextGemini b =
     (GoogleGenAI (nth_opt (apiKeys b) (keyIndex b)),
      b\<lparr>keyIndex := (keyIndex b + 1) mod length (apiKeys b)\<rparr>)"

text \<open>\<open>k\<close> successive calls: the clients returned, in order, and the state left.\<close>

fun getNextGemini_times :: "nat \<Rightarrow> batch \<Rightarrow> client list \<times> batch" where
  "getNextGemini_times 0 b = ([], b)"
| "getNextGemini_times (Suc k) b =
     (fst (getNextGemini b) # fst (getNextGemini_times k (snd (getNextGemini b))),
      snd (getNextGemini_times k (snd (getNextGemini b))))"

subsection \<open>generateWithRetry\<close>

definition MAX_RETRIES :: nat where
  "MAX_RETRIES = 5"

text \<open>
  What \<^verbatim>\<open>ai.models.generateContent\<close> does: it throws an error with a message, or
  returns a result whose \<^verbatim>\<open>text\<close> may be \<^verbatim>\<open>undefined\<close>. The provider
  answers the \<open>n\<close>-th call of the process, given the key, the model and the contents.
\<close>

datatype response = Throws string | Returns "string option"

type_synonym provider = "nat \<Rightarrow> string option \<Rightarrow> string \<Rightarrow> string \<Rightarrow> response"

text \<open>
  The \<^verbatim>\<open>try\<close> block of one attempt after the call:
  \<^verbatim>\<open>if (!result.text) throw new Error('Empty response'); return result.text\<close>.
  \<open>Inl\<close> is the message of the error that reaches the \<^verbatim>\<open>catch\<close>.
\<close>

definition attempt_outcome :: "response \<Rightarrow> string + string" where
  "attempt_outcome resp =
     (case resp of
        Throws m \<Rightarrow> Inl m
      | Returns None \<Rightarrow> Inl ''Empty response''
      | Returns (Some t) \<Rightarrow> if t = [] then Inl ''Empty response'' else Inr t)"

text \<open>The state after \<^verbatim>\<open>getNextGemini()\<close> and the call made with its client.\<close>

definition after_call :: "string \<Rightarrow> string \<Rightarrow> batch \<Rightarrow> batch" where
  "after_call promptText mdl b =
     (case fst (getNextGemini b) of
        GoogleGenAI key \<Rightarrow>
          (snd (getNextGemini b))\<lparr>calls := calls b @ [(key, mdl, promptText)]\<rparr>)"

definition call_response :: "provider \<Rightarrow> string \<Rightarrow> string \<Rightarrow> batch \<Rightarrow> response" where
  "call_response gen promptText mdl b =
     (case fst (getNextGemini b) of
        GoogleGenAI key \<Rightarrow> gen (length (calls b)) key mdl promptText)"

text \<open>
  The \<^verbatim>\<open>while (attempt < MAX_RETRIES)\<close> loop, entered with the value of
  \<^verbatim>\<open>attempt\<close>. \<open>Inl\<close> is the message of the error thrown, \<open>Inr (Some t)\<close> the
  text returned, \<open>Inr None\<close> the \<^verbatim>\<open>undefined\<close> of falling out of the loop. The
  pauses (\<^verbatim>\<open>sleep\<close>) and the console output are left out: they change no value.
  The tool runs one worker (\<^verbatim>\<open>CONCURRENCY_LIMIT = 1\<close>), so nothing else moves the
  rotation index between two attempts.
\<close>

function retry_loop ::
  "provider \<Rightarrow> string \<Rightarrow> string \<Rightarrow> nat \<Rightarrow> batch \<Rightarrow> (string + string option) \<times> batch" where
  "retry_loop gen promptText mdl attempt b =
     (if attempt < MAX_RETRIES
      then (case attempt_outcome (call_response gen promptText mdl b) of
              Inr t \<Rightarrow> (Inr (Some t), after_call promptText mdl b)
            | Inl m \<Rightarrow>
                if attempt + 1 \<ge> MAX_RETRIES
                then (Inl m, after_call promptText mdl b)
                else retry_loop gen promptText mdl (attempt + 1) (after_call promptText mdl b))
      else (Inr None, b))"
  by pat_completeness auto
termination
  by (relation "measure (\<lambda>(gen, promptText, mdl, attempt, b). MAX_RETRIES - attempt)") auto

declare retry_loop.simps [simp del]

definition generateWithRetry ::
  "provider \<Rightarrow> string \<Rightarrow> string \<Rightarrow> batch \<Rightarrow> (string + string option) \<times> batch" where
  "generateWithRetry gen promptText mdl b = retry_loop gen promptText mdl 0 b"

text \<open>
  The state in which attempt number \<open>i + 1\<close> starts when the attempts before it have
  failed: each of them has taken the next key and made one call. The call of that
  attempt is answered with \<open>attempt_response\<close>.
\<close>

fun attempt_state :: "string \<Rightarrow> string \<Rightarrow> nat \<Rightarrow> batch \<Rightarrow> batch" where
  "attempt_state promptText mdl 0 b = b"
| "attempt_state promptText mdl (Suc i) b =
     attempt_state promptText mdl i (after_call promptText mdl b)"

definition attempt_response ::
  "provider \<Rightarrow> string \<Rightarrow> string \<Rightarrow> nat \<Rightarrow> batch \<Rightarrow> response" where
  "attempt_response gen promptText mdl i b =
     call_response gen promptText mdl (attempt_state promptText mdl i b)"

subsection \<open>processFile of the batch tool\<close>

record BatchFile =
  file__id :: string
  originalFilename :: string
  file_secureUrl :: string

text \<open>
  The outcome of the awaited calls of one item other than generation: the prompt text of
  \<^verbatim>\<open>axios.get(file.secureUrl)\<close>, \<^verbatim>\<open>fs.writeFileSync\<close>, the
  \<^verbatim>\<open>axios.put\<close> that marks the file, and the reading of \<^verbatim>\<open>Date.now()\<close>.
\<close>

record item_run =
  prompt_got :: "string + string"
  file_written :: "string + unit"
  marked :: "string + unit"
  now_marked :: nat

text \<open>
  The object returned: \<^verbatim>\<open>{ success: true, name }\<close> or
  \<^verbatim>\<open>{ success: false, name, error }\<close>.
\<close>

datatype item_result = Succeeded string | Not_done string string

fun success :: "item_result \<Rightarrow> bool" where
  "success (Succeeded n) = True"
| "success (Not_done n e) = False"

definition effect :: "effect \<Rightarrow> batch \<Rightarrow> batch" where
  "effect e b = b\<lparr>effects := effects b @ [e]\<rparr>"

text \<open>
  \<^verbatim>\<open>processFile(file, model)\<close> of the batch tool: one \<^verbatim>\<open>try\<close> around
  every step, whose \<^verbatim>\<open>catch\<close> returns the failure object. \<open>slug\<close> stands for
  \<^verbatim>\<open>generateSafeFilename\<close>, taken as given. Writing \<^verbatim>\<open>undefined\<close> makes
  \<^verbatim>\<open>fs.writeFileSync\<close> throw a type error (its message is abridged here).
\<close>

definition processFile_batch ::
  "provider \<Rightarrow> (string \<Rightarrow> string) \<Rightarrow> item_run \<Rightarrow> BatchFile \<Rightarrow> string \<Rightarrow> batch
     \<Rightarrow> item_result \<times> batch" where
  "processFile_batch gen slug r file mdl b =
     (let b1 = effect (Get (file_secureUrl file)) b
      in case prompt_got r of
         Inl m \<Rightarrow> (Not_done (originalFilename file) m, b1)
       | Inr promptText \<Rightarrow>
      (case generateWithRetry gen promptText mdl b1 of
         (Inl m, b2) \<Rightarrow> (Not_done (originalFilename file) m, b2)
       | (Inr None, b2) \<Rightarrow>
           (Not_done (originalFilename file) ''The data argument must be of type string'', b2)
       | (Inr (Some generatedContent), b2) \<Rightarrow>
      let safeFilename = slug (originalFilename file);
          b3 = effect (Write_file safeFilename generatedContent) b2
      in case file_written r of
         Inl m \<Rightarrow> (Not_done (originalFilename file) m, b3)
       | Inr u \<Rightarrow>
      let b4 = effect (Put (file__id file) (now_marked r)) b3
      in case marked r of
         Inl m \<Rightarrow> (Not_done (originalFilename file) m, b4)
       | Inr u \<Rightarrow> (Succeeded safeFilename, b4)))"

subsection \<open>runQueue\<close>

text \<open>The number of workers the tool starts; the model below takes any number \<open>C\<close>.\<close>

definition CONCURRENCY_LIMIT :: nat where
  "CONCURRENCY_LIMIT = 1"

text \<open>
  The variables of one \<^verbatim>\<open>runQueue(files)\<close>: the shared \<^verbatim>\<open>index\<close>, the
  \<^verbatim>\<open>results\<close> array, and for each worker the index of the item whose
  \<^verbatim>\<open>processFile\<close> it awaits (\<open>None\<close>: it has left its loop, or has not
  started). \<open>started\<close> lists the files handed to \<^verbatim>\<open>processFile\<close>, in order.
\<close>

record 'f queue =
  index :: nat
  results :: "item_result list"
  workers :: "nat option list"
  started :: "'f list"

text \<open>
  A worker at the head of its loop: it leaves when the index has reached the end, and
  otherwise takes the item at the index, moves the index on and calls
  \<^verbatim>\<open>processFile\<close>. No \<^verbatim>\<open>await\<close> stands between the test and the
  increment, so the step is not interrupted.
\<close>

definition worker_next :: "'f list \<Rightarrow> nat \<Rightarrow> 'f queue \<Rightarrow> 'f queue" where
  "worker_next files w q =
     (if index q \<ge> length files
      then q\<lparr>workers := (workers q)[w := None]\<rparr>
      else q\<lparr>index := index q + 1,
             workers := (workers q)[w := Some (index q)],
             started := started q @ [files ! index q]\<rparr>)"

text \<open>
  \<^verbatim>\<open>Array.from({ length: C }, () => worker())\<close>: the workers are started one after
  the other, each running to its first \<^verbatim>\<open>await\<close>.
\<close>

definition start_workers :: "'f list \<Rightarrow> nat \<Rightarrow> 'f queue" where
  "start_workers files C =
     foldl (\<lambda>q w. worker_next files w q)
       \<lparr>index = 0, results = [], workers = replicate C None, started = []\<rparr> [0..<C]"

text \<open>
  The \<^verbatim>\<open>processFile\<close> awaited by worker \<open>w\<close> returns: the worker pushes the
  result and is back at the head of its loop. \<open>proc i f\<close> is what
  \<^verbatim>\<open>processFile\<close> returns for the item \<open>f\<close> at index \<open>i\<close> (it catches every
  error, so it always returns an object). A worker that awaits nothing is not resumed.
\<close>

definition worker_resume ::
  "'f list \<Rightarrow> (nat \<Rightarrow> 'f \<Rightarrow> item_result) \<Rightarrow> nat \<Rightarrow> 'f queue \<Rightarrow> 'f queue" where
  "worker_resume files proc w q =
     (if w < length (workers q)
      then (case workers q ! w of
              None \<Rightarrow> q
            | Some i \<Rightarrow> worker_next files w (q\<lparr>results := results q @ [proc i (files ! i)]\<rparr>))
      else q)"

text \<open>
  A schedule is the order in which the awaited calls return, by worker. It is valid when
  each of its workers awaits a call at its turn.
\<close>

definition run_schedule ::
  "'f list \<Rightarrow> (nat \<Rightarrow> 'f \<Rightarrow> item_result) \<Rightarrow> nat list \<Rightarrow> 'f queue \<Rightarrow> 'f queue" where
  "run_schedule files proc sched q = foldl (\<lambda>q w. worker_resume files proc w q) q sched"

fun valid_schedule ::
  "'f list \<Rightarrow> (nat \<Rightarrow> 'f \<Rightarrow> item_result) \<Rightarrow> nat list \<Rightarrow> 'f queue \<Rightarrow> bool" where
  "valid_schedule files proc [] q = True"
| "valid_schedule files proc (w # ws) q =
     (w < length (workers q) \<and> workers q ! w \<noteq> None \<and>
      valid_schedule files proc ws (worker_resume files proc w q))"

definition all_returned :: "'f queue \<Rightarrow> bool" where
  "all_returned q = list_all (\<lambda>x. x = None) (workers q)"

text \<open>
  \<^verbatim>\<open>runQueue(files)\<close> with \<open>C\<close> workers under a schedule: the results once
  \<^verbatim>\<open>Promise.all(workers)\<close> is settled, \<open>None\<close> while a worker still awaits.
\<close>

definition runQueue_state ::
  "nat \<Rightarrow> 'f list \<Rightarrow> (nat \<Rightarrow> 'f \<Rightarrow> item_result) \<Rightarrow> nat list \<Rightarrow> 'f queue" where
  "runQueue_state C files proc sched = run_schedule files proc sched (start_workers files C)"

definition runQueue ::
  "nat \<Rightarrow> 'f list \<Rightarrow> (nat \<Rightarrow> 'f \<Rightarrow> item_result) \<Rightarrow> nat list \<Rightarrow> item_result list option" where
  "runQueue C files proc sched =
     (if all_returned (runQueue_state C files proc sched)
      then Some (results (runQueue_state C files proc sched))
      else None)"

text \<open>The items whose \<^verbatim>\<open>processFile\<close> is awaited.\<close>

definition active :: "nat option list \<Rightarrow> nat list" where
  "active ws = map the (filter (\<lambda>x. x \<noteq> None) ws)"

text \<open>
  What holds of the variables throughout a run: the index is within the list, the files
  handed out are those before the index, and the results pushed together with the items
  in flight are the results of the items before the index.
\<close>

definition queue_inv :: "'f list \<Rightarrow> (nat \<Rightarrow> 'f \<Rightarrow> item_result) \<Rightarrow> 'f queue \<Rightarrow> bool" where
  "queue_inv files proc q =
     (index q \<le> length files \<and> started q = take (index q) files \<and>
      mset (results q) + image_mset (\<lambda>i. proc i (files ! i)) (mset (active (workers q))) =
        image_mset (\<lambda>i. proc i (files ! i)) (mset [0..<index q]))"

text \<open>While items remain, no worker has left its loop.\<close>

definition busy :: "'f list \<Rightarrow> 'f queue \<Rightarrow> bool" where
  "busy files q = (index q < length files \<longrightarrow> None \<notin> set (workers q))"

section \<open>Example inputs\<close>

text \<open>The doubles 0.5, 0.6666666666666666 and 0.8333333333333333.\<close>

definition one_half :: unit_double where
  "one_half = \<lparr>mantissa = 4503599627370496, scale = 53\<rparr>"

definition two_thirds :: unit_double where
  "two_thirds = \<lparr>mantissa = 6004799503160661, scale = 53\<rparr>"

definition five_sixths :: unit_double where
  "five_sixths = \<lparr>mantissa = 7505999378950826, scale = 53\<rparr>"

definition example_run :: run where
  "example_run =
     \<lparr>now_start = 1000, get_prompt = Inr ''Write about tea.'',
      env_GEMINI_API_KEY = Some ''env-key'', random = one_half,
      generated = Inr (Some ''# Tea''), now_upload = 2000,
      uploaded = Inr ''https://res.example/article.mdx'', now_put = 3000,
      put_done = Inr (), now_end = 4000\<rparr>"

definition example_config :: config where
  "example_config =
     \<lparr>cloudName = ''cloud'', apiKey = ''key'', apiSecret = ''secret'',
      geminiApiKeys = Some [''key-a'', ''key-b''], model = None\<rparr>"

definition empty_server :: server where
  "empty_server = \<lparr>jobs = [], clients = [], trace = []\<rparr>"

definition completed_store :: server where
  "completed_store =
     snd (processFile example_run ''job-1'' ''file-1'' ''https://files.example/p1.txt''
            example_config empty_server)"

definition example_batch :: batch where
  "example_batch =
     \<lparr>apiKeys = [''key-a'', ''key-b'', ''key-c''], keyIndex = 0, calls = [], effects = []\<rparr>"

text \<open>A provider that is always unavailable, and one whose first answer is empty.\<close>

definition failing_provider :: provider where
  "failing_provider n key mdl contents = Throws ''503 Service Unavailable''"

text \<open>
  A provider whose fifth answer is another error than the first four, and one that
  rejects the three keys of the example pool and would accept any other.
\<close>

definition limited_at_last :: provider where
  "limited_at_last n key mdl contents =
     (if n < 4 then Throws ''503 Service Unavailable'' else Throws ''429 Too Many Requests'')"

definition pool_rejecting :: provider where
  "pool_rejecting n key mdl contents =
     (if key = Some ''key-a'' \<or> key = Some ''key-b'' \<or> key = Some ''key-c''
      then Throws ''401 API key not valid'' else Returns (Some ''# Tea''))"

definition empty_then_text :: provider where
  "empty_then_text n key mdl contents =
     (if n = 0 then Returns (Some []) else Returns (Some ''# Tea''))"

definition text_provider :: provider where
  "text_provider n key mdl contents = Returns (Some ''# Tea'')"

definition example_files :: "BatchFile list" where
  "example_files =
     [\<lparr>file__id = ''file-1'', originalFilename = ''Tea.txt'',
        file_secureUrl = ''https://files.example/p1.txt''\<rparr>,
      \<lparr>file__id = ''file-2'', originalFilename = ''Rice.txt'',
        file_secureUrl = ''https://files.example/p2.txt''\<rparr>,
      \<lparr>file__id = ''file-3'', originalFilename = ''Salt.txt'',
        file_secureUrl = ''https://files.example/p3.txt''\<rparr>]"

text \<open>The second item fails, the others succeed.\<close>

definition example_proc :: "nat \<Rightarrow> BatchFile \<Rightarrow> item_result" where
  "example_proc i f =
     (if i = 1 then Not_done (originalFilename f) ''Empty response''
      else Succeeded (originalFilename f))"

definition example_file :: BatchFile where
  "example_file =
     \<lparr>file__id = ''file-1'', originalFilename = ''Tea.txt'',
      file_secureUrl = ''https://files.example/p1.txt''\<rparr>"

definition example_item_run :: item_run where
  "example_item_run =
     \<lparr>prompt_got = Inr ''Write about tea.'', file_written = Inr (),
      marked = Inl ''Request failed with status code 500'', now_marked = 3000\<rparr>"

definition example_slug :: "string \<Rightarrow> string" where
  "example_slug n = ''tea.mdx''"

text \<open>The first invocation for \<open>file-1\<close>, awaiting the answer of its \<^verbatim>\<open>axios.get\<close>.\<close>

definition awaiting_store :: server where
  "awaiting_store =
     processFile_begin example_run ''job-1'' ''file-1'' ''https://files.example/p1.txt''
       empty_server"

section \<open>Properties of the server\<close>

subsection \<open>The index drawn by getGemini\<close>

lemma bit_length_0 [simp]: "bit_length 0 = 0"
  by (simp add: bit_length.simps)

lemma bit_length_pos: "0 < n \<Longrightarrow> bit_length n = Suc (bit_length (n div 2))"
  by (subst bit_length.simps) simp

lemma bit_length_bounds: "0 < n \<Longrightarrow> 2 ^ (bit_length n - 1) \<le> n \<and> n < 2 ^ bit_length n"
proof (induction n rule: bit_length.induct)
  case (1 n)
  show ?case
  proof (cases "n div 2 = 0")
    case True
    with "1.prems" have "n = 1" by (simp add: div_eq_0_iff)
    then show ?thesis by (simp add: bit_length_pos)
  next
    case False
    then have pos: "0 < n div 2" by simp
    from "1.IH" [OF _ pos] "1.prems"
    have IH: "2 ^ (bit_length (n div 2) - 1) \<le> n div 2" "n div 2 < 2 ^ bit_length (n div 2)"
      by simp_all
    from pos have bl: "0 < bit_length (n div 2)" by (simp add: bit_length_pos)
    have "2 ^ bit_length (n div 2) = (2::nat) * 2 ^ (bit_length (n div 2) - 1)"
      using bl by (cases "bit_length (n div 2)") simp_all
    with IH(1) have "2 ^ bit_length (n div 2) \<le> 2 * (n div 2)" by simp
    also have "\<dots> \<le> n" by simp
    finally have lo: "2 ^ bit_length (n div 2) \<le> n" .
    from IH(2) have "n < 2 * 2 ^ bit_length (n div 2)" by linarith
    with lo "1.prems" show ?thesis by (simp add: bit_length_pos)
  qed
qed

lemma round_upper:
  "round_to_53_bits P \<le> P + 2 ^ (bit_length P - 53) div 2"
proof -
  let ?s = "bit_length P - 53"
  let ?q = "P div 2 ^ ?s" and ?r = "P mod 2 ^ ?s"
  have P: "?q * 2 ^ ?s + ?r = P" by (rule div_mult_mod_eq)
  show ?thesis
  proof (cases "2 ^ ?s < 2 * ?r \<or> (2 * ?r = 2 ^ ?s \<and> odd ?q)")
    case True
    then have h: "(2::nat) ^ ?s \<le> 2 * ?r" by auto
    have "round_to_53_bits P = (?q + 1) * 2 ^ ?s"
      using True by (simp add: round_to_53_bits_def Let_def)
    also have "\<dots> = ?q * 2 ^ ?s + 2 ^ ?s" by (simp add: algebra_simps)
    also have "\<dots> \<le> ?q * 2 ^ ?s + ?r + 2 ^ ?s div 2" using h by linarith
    also have "\<dots> = P + 2 ^ ?s div 2" by (simp only: P)
    finally show ?thesis .
  next
    case False
    then have "round_to_53_bits P = ?q * 2 ^ ?s"
      by (simp add: round_to_53_bits_def Let_def)
    also have "\<dots> \<le> P" by simp
    finally show ?thesis by simp
  qed
qed

lemma floor_of_product_less:
  assumes "is_unit_double d" "0 < n"
  shows "floor_of_product d n < n"
proof -
  define B :: nat where "B = 2 ^ 53"
  let ?P = "mantissa d * n"
  let ?s = "bit_length ?P - 53"
  have Bpos: "0 < B" by (simp add: B_def)
  from assms have m: "mantissa d + 1 \<le> B" and k: "53 \<le> scale d"
    by (simp_all add: is_unit_double_def B_def)
  from m have "(mantissa d + 1) * n \<le> B * n" by (rule mult_le_mono1)
  then have Pn: "?P + n \<le> B * n" by (simp add: algebra_simps)
  have half: "(2::nat) ^ ?s div 2 < n"
  proof (cases "?s = 0")
    case True
    with assms(2) show ?thesis by simp
  next
    case False
    then have b: "53 < bit_length ?P" by simp
    then have "0 < ?P" by (cases "?P = 0") simp_all
    from bit_length_bounds [OF this] have lo: "2 ^ (bit_length ?P - 1) \<le> ?P" by simp
    have "bit_length ?P - 1 = (?s - 1) + 53" using b by simp
    then have "(2::nat) ^ (bit_length ?P - 1) = 2 ^ (?s - 1) * B"
      by (simp only: power_add B_def)
    with lo have "2 ^ (?s - 1) * B \<le> ?P" by simp
    also have "?P < B * n" using Pn assms(2) by linarith
    finally have "2 ^ (?s - 1) * B < n * B" by (simp add: mult.commute)
    then have "(2::nat) ^ (?s - 1) < n" using Bpos by simp
    moreover have "(2::nat) ^ ?s div 2 = 2 ^ (?s - 1)"
      using False by (cases ?s) simp_all
    ultimately show ?thesis by simp
  qed
  from k have "(2::nat) ^ 53 \<le> 2 ^ scale d" by (rule power_increasing) simp
  then have Bk: "B \<le> 2 ^ scale d" by (simp only: B_def)
  from round_upper [of ?P] half have "round_to_53_bits ?P < ?P + n" by linarith
  also have "\<dots> \<le> B * n" by (rule Pn)
  also have "\<dots> \<le> 2 ^ scale d * n" using Bk by (rule mult_le_mono1)
  finally have "round_to_53_bits ?P < n * 2 ^ scale d" by (simp only: mult.commute)
  then show ?thesis
    unfolding floor_of_product_def by (rule less_mult_imp_div_less)
qed

lemma bit_length_eqI:
  assumes "2 ^ (b - 1) \<le> n" "n < 2 ^ b" "0 < b"
  shows "bit_length n = b"
proof -
  from assms(1) have pos: "0 < n" by (cases "n = 0") simp_all
  from bit_length_bounds [OF pos]
  have lo: "2 ^ (bit_length n - 1) \<le> n" and hi: "n < 2 ^ bit_length n" by simp_all
  from assms(1) hi have "(2::nat) ^ (b - 1) < 2 ^ bit_length n" by linarith
  then have 1: "b - 1 < bit_length n" by (rule power_less_imp_less_exp [rotated]) simp
  from lo assms(2) have "(2::nat) ^ (bit_length n - 1) < 2 ^ b" by linarith
  then have 2: "bit_length n - 1 < b" by (rule power_less_imp_less_exp [rotated]) simp
  from 1 2 assms(3) show ?thesis by linarith
qed

lemma floor_of_product_one_half: "floor_of_product one_half 2 = 1"
proof -
  have "bit_length 9007199254740992 = 54"
    by (rule bit_length_eqI) simp_all
  then show ?thesis
    by (simp add: floor_of_product_def one_half_def round_to_53_bits_def Let_def)
qed

lemma floor_of_product_two_thirds: "floor_of_product two_thirds 3 = 2"
proof -
  have "bit_length 18014398509481983 = 54"
    by (rule bit_length_eqI) simp_all
  then show ?thesis
    by (simp add: floor_of_product_def two_thirds_def round_to_53_bits_def Let_def)
qed

lemma floor_of_product_five_sixths: "floor_of_product five_sixths 6 = 5"
proof -
  have "bit_length 45035996273704956 = 56"
    by (rule bit_length_eqI) simp_all
  then show ?thesis
    by (simp add: floor_of_product_def five_sixths_def round_to_53_bits_def Let_def)
qed

lemma floor_of_product_examples:
  "floor_of_product one_half (Suc (Suc 0)) = Suc 0"
  "floor_of_product two_thirds (Suc (Suc (Suc 0))) = Suc (Suc 0)"
  "floor_of_product five_sixths (Suc (Suc (Suc (Suc (Suc (Suc 0)))))) = Suc (Suc (Suc (Suc (Suc 0))))"
  using floor_of_product_one_half floor_of_product_two_thirds floor_of_product_five_sixths
  by (simp_all add: eval_nat_numeral)

lemma getGemini_example:
  "getGemini env_key one_half (Some [''key-a'', ''key-b'']) = Inr (GoogleGenAI (Some ''key-b''))"
  by (simp add: getGemini_def valid_key_def sublist_code nth_opt_def floor_of_product_examples)

subsection \<open>Effects of the building blocks\<close>

lemma job_values_append: "job_values k (a @ b) = job_values k a @ job_values k b"
  by (induction k a rule: job_values.induct) auto

lemma http_puts_append: "http_puts (a @ b) = http_puts a @ http_puts b"
  by (induction a rule: http_puts.induct) auto

lemmas update_simps = assign_def progress_update_def no_updates_def keep_or_def keep_or_opt_def
  is_terminal_update_def

lemma find_job_updateJob:
  "find_job (updateJob now jobId updates s) jobId =
     (case find_job s jobId of
        None \<Rightarrow> None
      | Some job \<Rightarrow>
          Some (if is_terminal_update updates then (assign job updates)\<lparr>endTime := Some now\<rparr>
                else assign job updates))"
  by (simp add: find_job_def updateJob_def notify_def Let_def update_conv' split: option.splits)

lemma find_job_emit: "find_job (emit e s) k = find_job s k"
  by (simp add: find_job_def emit_def)

lemma find_job_set:
  "find_job (s\<lparr>jobs := AList.update k j (jobs s), trace := t\<rparr>) k = Some j"
  by (simp add: find_job_def update_conv')

lemma find_job_start:
  "find_job (processFile_start r jobId fid s) jobId =
     Some \<lparr>id' = jobId, fileId = fid, status = Processing, progress = 5,
           message = ''Starting processing...'', result = None, error = None,
           startTime = now_start r, endTime = None\<rparr>"
  by (simp add: processFile_start_def find_job_updateJob Let_def find_job_set update_simps)

lemma find_job_begin:
  "find_job (processFile_begin r jobId fid url s) jobId =
     Some \<lparr>id' = jobId, fileId = fid, status = Processing, progress = 10,
           message = ''Fetching prompt from source...'', result = None, error = None,
           startTime = now_start r, endTime = None\<rparr>"
  by (simp add: processFile_begin_def find_job_updateJob find_job_emit find_job_start update_simps)

lemma find_job_swallow: "find_job (swallow_put_failure j res s) k = find_job s k"
  by (simp add: swallow_put_failure_def find_job_emit split: sum.splits)

lemmas find_job_simps = find_job_updateJob find_job_emit find_job_begin find_job_swallow

lemma job_history_updateJob:
  "job_history (updateJob now jobId updates s) jobId =
     job_history s jobId @
       (case find_job s jobId of
          None \<Rightarrow> []
        | Some job \<Rightarrow>
            [if is_terminal_update updates then (assign job updates)\<lparr>endTime := Some now\<rparr>
             else assign job updates])"
  by (simp add: job_history_def find_job_def updateJob_def notify_def Let_def job_values_append
        split: option.splits)

lemma job_history_emit:
  "job_history (emit e s) k = job_history s k @ job_values k [e]"
  by (simp add: job_history_def emit_def job_values_append)

lemma job_history_set:
  "job_history (s\<lparr>jobs := js, trace := trace s @ [Job_created k j]\<rparr>) k = job_history s k @ [j]"
  by (simp add: job_history_def job_values_append)

lemma job_history_start:
  "job_history (processFile_start r jobId fid s) jobId =
     job_history s jobId @
     [\<lparr>id' = jobId, fileId = fid, status = Pending, progress = 0,
           message = ''Job created'', result = None, error = None,
           startTime = now_start r, endTime = None\<rparr>,
      \<lparr>id' = jobId, fileId = fid, status = Processing, progress = 5,
           message = ''Starting processing...'', result = None, error = None,
           startTime = now_start r, endTime = None\<rparr>]"
  by (simp add: processFile_start_def job_history_updateJob Let_def find_job_set job_history_set
        update_simps)

lemma job_history_begin:
  "job_history (processFile_begin r jobId fid url s) jobId =
     job_history s jobId @
     [\<lparr>id' = jobId, fileId = fid, status = Pending, progress = 0,
           message = ''Job created'', result = None, error = None,
           startTime = now_start r, endTime = None\<rparr>,
      \<lparr>id' = jobId, fileId = fid, status = Processing, progress = 5,
           message = ''Starting processing...'', result = None, error = None,
           startTime = now_start r, endTime = None\<rparr>,
      \<lparr>id' = jobId, fileId = fid, status = Processing, progress = 10,
           message = ''Fetching prompt from source...'', result = None, error = None,
           startTime = now_start r, endTime = None\<rparr>]"
  by (simp add: processFile_begin_def job_history_updateJob job_history_emit job_history_start
        find_job_start update_simps)

lemma job_history_swallow: "job_history (swallow_put_failure j res s) k = job_history s k"
  by (simp add: swallow_put_failure_def job_history_emit split: sum.splits)

lemmas job_history_simps = job_history_updateJob job_history_emit job_history_begin
  job_history_swallow

lemma http_puts_updateJob:
  "http_puts (trace (updateJob now jobId updates s)) = http_puts (trace s)"
  by (simp add: updateJob_def notify_def Let_def http_puts_append split: option.splits)

lemma http_puts_emit: "http_puts (trace (emit e s)) = http_puts (trace s) @ http_puts [e]"
  by (simp add: emit_def http_puts_append)

lemma http_puts_start:
  "http_puts (trace (processFile_start r jobId fid s)) = http_puts (trace s)"
  by (simp add: processFile_start_def http_puts_updateJob Let_def http_puts_append)

lemma http_puts_begin:
  "http_puts (trace (processFile_begin r jobId fid url s)) = http_puts (trace s)"
  by (simp add: processFile_begin_def http_puts_updateJob http_puts_emit http_puts_start)

lemma http_puts_swallow:
  "http_puts (trace (swallow_put_failure j res s)) = http_puts (trace s)"
  by (simp add: swallow_put_failure_def http_puts_emit split: sum.splits)

lemmas http_puts_simps = http_puts_updateJob http_puts_emit http_puts_begin http_puts_swallow

lemma generate_calls_append: "generate_calls (a @ b) = generate_calls a @ generate_calls b"
  by (induction a rule: generate_calls.induct) auto

lemma generate_calls_updateJob:
  "generate_calls (trace (updateJob now jobId updates s)) = generate_calls (trace s)"
  by (simp add: updateJob_def notify_def Let_def generate_calls_append split: option.splits)

lemma generate_calls_emit:
  "generate_calls (trace (emit e s)) = generate_calls (trace s) @ generate_calls [e]"
  by (simp add: emit_def generate_calls_append)

lemma generate_calls_begin:
  "generate_calls (trace (processFile_begin r jobId fid url s)) = generate_calls (trace s)"
  by (simp add: processFile_begin_def processFile_start_def Let_def generate_calls_updateJob
        generate_calls_emit generate_calls_append)

lemmas generate_calls_simps = generate_calls_updateJob generate_calls_emit generate_calls_begin

text \<open>
  An invocation writes to the Job of its own id only. Whatever runs while another
  invocation awaits leaves that one's Job as it was.
\<close>

lemma find_job_updateJob_other:
  "k \<noteq> jobId \<Longrightarrow> find_job (updateJob now jobId updates s) k = find_job s k"
  by (simp add: find_job_def updateJob_def notify_def Let_def update_conv' split: option.splits)

lemma find_job_begin_other:
  "k \<noteq> jobId \<Longrightarrow> find_job (processFile_begin r jobId fid url s) k = find_job s k"
  by (simp add: processFile_begin_def processFile_start_def Let_def find_job_updateJob_other
        find_job_emit)
     (simp add: find_job_def update_conv')

subsection \<open>The five ways an invocation can end\<close>

lemma processFile_cases [case_names fetch key generation upload success]:
  obtains
    (fetch) m where "get_prompt r = Inl m"
      "processFile r jobId fid url cfg s =
         (Inl (''Failed to fetch prompt file: '' @ m),
          fail_job r jobId (''Failed to fetch prompt file: '' @ m)
            (processFile_begin r jobId fid url s))"
  | (key) p m where "get_prompt r = Inr p"
      "getGemini (env_GEMINI_API_KEY r) (random r) (geminiApiKeys cfg) = Inl m"
      "processFile r jobId fid url cfg s =
         (Inl m,
          fail_job r jobId m
            (updateJob (now_end r) jobId (progress_update 30 ''Generating content with Gemini...'')
            (processFile_begin r jobId fid url s)))"
  | (generation) p k mdl m where "get_prompt r = Inr p"
      "getGemini (env_GEMINI_API_KEY r) (random r) (geminiApiKeys cfg) = Inr (GoogleGenAI k)"
      "generation_step (generated r) = Inl m"
      "processFile r jobId fid url cfg s =
         (Inl m,
          fail_job r jobId m
            (emit (Generate_content k mdl p)
            (updateJob (now_end r) jobId (progress_update 30 ''Generating content with Gemini...'')
            (processFile_begin r jobId fid url s))))"
  | (upload) p k mdl g m where "get_prompt r = Inr p"
      "getGemini (env_GEMINI_API_KEY r) (random r) (geminiApiKeys cfg) = Inr (GoogleGenAI k)"
      "generation_step (generated r) = Inr g" "uploaded r = Inl m"
      "processFile r jobId fid url cfg s =
         (Inl (''Cloudinary upload failed: '' @ m),
          fail_job r jobId (''Cloudinary upload failed: '' @ m)
            (emit (Cloudinary_upload g fid (now_upload r))
            (updateJob (now_end r) jobId (progress_update 70 ''Uploading to Cloudinary...'')
            (emit (Generate_content k mdl p)
            (updateJob (now_end r) jobId (progress_update 30 ''Generating content with Gemini...'')
            (processFile_begin r jobId fid url s))))))"
  | (success) p k mdl g u where "get_prompt r = Inr p"
      "getGemini (env_GEMINI_API_KEY r) (random r) (geminiApiKeys cfg) = Inr (GoogleGenAI k)"
      "generation_step (generated r) = Inr g" "uploaded r = Inr u"
      "processFile r jobId fid url cfg s =
         (Inr \<lparr>out_jobId = jobId, out_fileId = fid, generatedUrl = u, content = g\<rparr>,
          updateJob (now_end r) jobId
            ((progress_update 100 ''Process completed successfully!'')
               \<lparr>set_status := Some Completed, set_result := Some u\<rparr>)
            (swallow_put_failure jobId (put_done r)
            (emit (Http_put fid (now_put r))
            (updateJob (now_end r) jobId (progress_update 90 ''Updating external API status...'')
            (emit (Cloudinary_upload g fid (now_upload r))
            (updateJob (now_end r) jobId (progress_update 70 ''Uploading to Cloudinary...'')
            (emit (Generate_content k mdl p)
            (updateJob (now_end r) jobId (progress_update 30 ''Generating content with Gemini...'')
            (processFile_begin r jobId fid url s)))))))))"
proof (cases "get_prompt r")
  case (Inl m)
  then show ?thesis using fetch by (simp add: processFile_def processFile_try_def)
next
  case p: (Inr p)
  show ?thesis
  proof (cases "getGemini (env_GEMINI_API_KEY r) (random r) (geminiApiKeys cfg)")
    case (Inl m)
    then show ?thesis using p key by (simp add: processFile_def processFile_try_def)
  next
    case (Inr c)
    then obtain k where
      k: "getGemini (env_GEMINI_API_KEY r) (random r) (geminiApiKeys cfg) = Inr (GoogleGenAI k)"
      by (cases c) simp
    show ?thesis
    proof (cases "generation_step (generated r)")
      case (Inl m)
      then show ?thesis using p k generation [of p k m]
        by (simp add: processFile_def processFile_try_def Let_def)
    next
      case g: (Inr g)
      show ?thesis
      proof (cases "uploaded r")
        case (Inl m)
        then show ?thesis using p k g upload [of p k g m]
          by (simp add: processFile_def processFile_try_def Let_def)
      next
        case (Inr u)
        then show ?thesis using p k g success [of p k g u]
          by (simp add: processFile_def processFile_try_def Let_def)
      qed
    qed
  qed
qed

lemmas fail_simps = fail_job_def find_job_simps update_simps

lemma find_job_processFile_other:
  "k \<noteq> jobId \<Longrightarrow> find_job (snd (processFile r jobId fid url cfg s)) k = find_job s k"
  by (rule processFile_cases
        [where r = r and jobId = jobId and fid = fid and url = url and cfg = cfg and s = s])
     (simp_all add: fail_job_def find_job_updateJob_other find_job_begin_other find_job_emit
        find_job_swallow)

subsection \<open>The Job of an invocation ends in a terminal state\<close>

text \<open>
  C10. Whatever the awaited calls do, when \<^verbatim>\<open>processFile\<close> finishes the Job it
  created is stored with a terminal status: completed when it returns normally, failed
  when it rethrows.
\<close>

theorem processFile_ends_terminal:
  "map_option status (find_job (snd (processFile r jobId fid url cfg s)) jobId) =
     Some (if isl (fst (processFile r jobId fid url cfg s)) then Failed else Completed)"
  by (rule processFile_cases
        [where r = r and jobId = jobId and fid = fid and url = url and cfg = cfg and s = s])
     (simp_all add: fail_simps)

subsection \<open>updateJob checks nothing\<close>

lemma completed_store_job:
  "find_job completed_store ''job-1'' =
     Some \<lparr>id' = ''job-1'', fileId = ''file-1'', status = Completed, progress = 100,
           message = ''Process completed successfully!'',
           result = Some ''https://res.example/article.mdx'', error = None,
           startTime = 1000, endTime = Some 4000\<rparr>"
  by (simp add: completed_store_def processFile_def processFile_try_def Let_def find_job_simps
        update_simps example_run_def example_config_def getGemini_example valid_key_def
        generation_step_def sublist_code)

text \<open>
  C2, as the code has it. \<^verbatim>\<open>updateJob\<close> does not look at the Job's current status:
  when a Job is stored under the id, every field the update carries is copied into it,
  a completed or failed Job included, and when none is stored nothing changes. An update
  whose status is completed or failed also sets \<^verbatim>\<open>endTime\<close> to the current time.
\<close>

theorem updateJob_unchecked_merge:
  "(find_job s jobId = None \<longrightarrow> updateJob now jobId updates s = s) \<and>
   (\<forall>job. find_job s jobId = Some job \<longrightarrow>
      find_job (updateJob now jobId updates s) jobId =
        Some (if set_status updates = Some Completed \<or> set_status updates = Some Failed
              then (assign job updates)\<lparr>endTime := Some now\<rparr>
              else assign job updates))"
  by (simp add: find_job_updateJob is_terminal_update_def) (simp add: find_job_def updateJob_def)

theorem updateJob_unchecked_merge_witness:
  "find_job completed_store ''job-1'' \<noteq> None \<and>
   map_option status (find_job (updateJob 5000 ''job-1''
       (no_updates\<lparr>set_status := Some Failed\<rparr>) completed_store) ''job-1'')
     = Some Failed \<and>
   map_option endTime (find_job (updateJob 5000 ''job-1''
       (no_updates\<lparr>set_status := Some Failed\<rparr>) completed_store) ''job-1'')
     = Some (Some 5000) \<and>
   find_job completed_store ''job-2'' = None \<and>
   updateJob 5000 ''job-2'' (no_updates\<lparr>set_status := Some Failed\<rparr>) completed_store
     = completed_store"
proof -
  have absent: "find_job completed_store ''job-2'' = None"
    by (simp add: completed_store_def processFile_def processFile_try_def Let_def
          example_run_def example_config_def getGemini_example valid_key_def generation_step_def
          sublist_code find_job_def processFile_begin_def processFile_start_def updateJob_def
          notify_def emit_def swallow_put_failure_def empty_server_def update_simps)
  from updateJob_unchecked_merge [of completed_store "''job-1''" 5000
          "no_updates\<lparr>set_status := Some Failed\<rparr>"]
  have present: "find_job completed_store ''job-1'' \<noteq> None \<and>
     map_option status (find_job (updateJob 5000 ''job-1''
       (no_updates\<lparr>set_status := Some Failed\<rparr>) completed_store) ''job-1'')
     = Some Failed \<and>
     map_option endTime (find_job (updateJob 5000 ''job-1''
       (no_updates\<lparr>set_status := Some Failed\<rparr>) completed_store) ''job-1'')
     = Some (Some 5000)"
    by (simp add: completed_store_job update_simps)
  from updateJob_unchecked_merge [of completed_store "''job-2''" 5000
          "no_updates\<lparr>set_status := Some Failed\<rparr>"] absent
  have "updateJob 5000 ''job-2'' (no_updates\<lparr>set_status := Some Failed\<rparr>) completed_store
          = completed_store"
    by simp
  with absent present show ?thesis by simp
qed

text \<open>
  The claim as stated fails: the Job of a finished successful run is completed, and a
  later \<^verbatim>\<open>updateJob\<close> puts it back to processing at 5 percent.
\<close>

theorem updateJob_terminal_counterexample:
  "map_option status (find_job completed_store ''job-1'') = Some Completed \<and>
   map_option status (find_job (updateJob 5000 ''job-1''
       (no_updates\<lparr>set_status := Some Processing, set_progress := Some 5\<rparr>) completed_store)
       ''job-1'') = Some Processing \<and>
   map_option progress (find_job (updateJob 5000 ''job-1''
       (no_updates\<lparr>set_status := Some Processing, set_progress := Some 5\<rparr>) completed_store)
       ''job-1'') = Some 5"
  by (simp add: find_job_updateJob completed_store_job update_simps)

subsection \<open>Progress over the lifetime of a Job\<close>

text \<open>
  C6. When \<^verbatim>\<open>processFile\<close> returns normally, the progress values its Job took are
  0, 5, 10, 30, 70, 90, 100 in this order (so they never go down), and the Job is stored
  completed at 100. In every run, successful or not, progress goes down between two
  successive values of the Job only when the second is the failed Job.
\<close>

theorem processFile_progress:
  "(fst (processFile r jobId fid url cfg s) = Inr out \<longrightarrow>
      map progress (recorded s (snd (processFile r jobId fid url cfg s)) jobId)
        = [0, 5, 10, 30, 70, 90, 100] \<and>
      sorted (map progress (recorded s (snd (processFile r jobId fid url cfg s)) jobId)) \<and>
      map_option progress (find_job (snd (processFile r jobId fid url cfg s)) jobId) = Some 100 \<and>
      map_option status (find_job (snd (processFile r jobId fid url cfg s)) jobId)
        = Some Completed) \<and>
   decreases_only_on_failed (recorded s (snd (processFile r jobId fid url cfg s)) jobId)"
  by (rule processFile_cases
        [where r = r and jobId = jobId and fid = fid and url = url and cfg = cfg and s = s])
     (simp_all add: fail_simps recorded_def job_history_simps)

lemma example_run_result:
  "fst (processFile example_run ''job-1'' ''file-1'' ''https://files.example/p1.txt''
          example_config empty_server) =
     Inr \<lparr>out_jobId = ''job-1'', out_fileId = ''file-1'',
          generatedUrl = ''https://res.example/article.mdx'', content = ''# Tea''\<rparr>"
  by (simp add: processFile_def processFile_try_def Let_def example_run_def example_config_def
        getGemini_example valid_key_def generation_step_def sublist_code)

theorem processFile_progress_witness:
  "fst (processFile example_run ''job-1'' ''file-1'' ''https://files.example/p1.txt''
          example_config empty_server) =
     Inr \<lparr>out_jobId = ''job-1'', out_fileId = ''file-1'',
          generatedUrl = ''https://res.example/article.mdx'', content = ''# Tea''\<rparr> \<and>
   map progress (recorded empty_server completed_store ''job-1'') = [0, 5, 10, 30, 70, 90, 100] \<and>
   map_option status (find_job completed_store ''job-1'') = Some Completed"
  using processFile_progress [of example_run "''job-1''" "''file-1''"
          "''https://files.example/p1.txt''" example_config empty_server
          "\<lparr>out_jobId = ''job-1'', out_fileId = ''file-1'',
            generatedUrl = ''https://res.example/article.mdx'', content = ''# Tea''\<rparr>"]
  by (simp add: example_run_result completed_store_def)

subsection \<open>A failed fetch\<close>

text \<open>
  C8. When \<^verbatim>\<open>axios.get(fileUrl)\<close> throws, the invocation rethrows
  \<^verbatim>\<open>Failed to fetch prompt file: ...\<close>, its Job is stored failed with that message
  as error, at progress 0, and the run makes no \<^verbatim>\<open>axios.put\<close> to the record store.
\<close>

theorem processFile_fetch_failure:
  "get_prompt r = Inl m \<Longrightarrow>
     fst (processFile r jobId fid url cfg s) = Inl (''Failed to fetch prompt file: '' @ m) \<and>
     find_job (snd (processFile r jobId fid url cfg s)) jobId =
       Some \<lparr>id' = jobId, fileId = fid, status = Failed, progress = 0,
             message = ''Failed to fetch prompt file: '' @ m, result = None,
             error = Some (''Failed to fetch prompt file: '' @ m),
             startTime = now_start r, endTime = Some (now_end r)\<rparr> \<and>
     http_puts (trace (snd (processFile r jobId fid url cfg s))) = http_puts (trace s)"
  by (rule processFile_cases
        [where r = r and jobId = jobId and fid = fid and url = url and cfg = cfg and s = s])
     (simp_all add: fail_simps http_puts_simps)

theorem processFile_fetch_failure_witness:
  "get_prompt (example_run\<lparr>get_prompt := Inl ''timeout''\<rparr>) = Inl ''timeout'' \<and>
   fst (processFile (example_run\<lparr>get_prompt := Inl ''timeout''\<rparr>) ''job-1'' ''file-1''
          ''https://files.example/p1.txt'' example_config empty_server)
     = Inl ''Failed to fetch prompt file: timeout'' \<and>
   map_option status
     (find_job (snd (processFile (example_run\<lparr>get_prompt := Inl ''timeout''\<rparr>) ''job-1''
        ''file-1'' ''https://files.example/p1.txt'' example_config empty_server)) ''job-1'')
     = Some Failed \<and>
   http_puts (trace (snd (processFile (example_run\<lparr>get_prompt := Inl ''timeout''\<rparr>) ''job-1''
        ''file-1'' ''https://files.example/p1.txt'' example_config empty_server))) = []"
  using processFile_fetch_failure [of "example_run\<lparr>get_prompt := Inl ''timeout''\<rparr>"
          "''timeout''" "''job-1''" "''file-1''" "''https://files.example/p1.txt''"
          example_config empty_server]
  by (simp add: empty_server_def)

subsection \<open>Two Jobs in flight for one file\<close>

text \<open>\<^verbatim>\<open>runAutomation\<close> starts nothing for a file that has a Job in flight.\<close>

lemma automation_skips_in_flight:
  "isProcessing s (file_id f) \<Longrightarrow>
   automation_loop supply auto_config k (f # rest) s =
     automation_loop supply auto_config (Suc k) rest s"
  by simp

text \<open>
  C1 at the failing input. A first \<^verbatim>\<open>POST /api/generate\<close> for \<open>file-1\<close> awaits its
  fetch; \<^verbatim>\<open>runAutomation\<close> would see its Job and skip the file. A second
  \<^verbatim>\<open>POST /api/generate\<close> for \<open>file-1\<close> calls \<^verbatim>\<open>processFile\<close> all the same,
  and two Jobs of \<open>file-1\<close> are processing at once.
\<close>

theorem manual_trigger_second_job:
  "isProcessing awaiting_store ''file-1'' \<and>
   map (\<lambda>j. (id' j, status j))
     (non_terminal_jobs
        (processFile_begin example_run ''job-2'' ''file-1'' ''https://files.example/p1.txt''
           awaiting_store) ''file-1'')
     = [(''job-1'', Processing), (''job-2'', Processing)]"
  by (simp add: awaiting_store_def empty_server_def processFile_begin_def processFile_start_def
        updateJob_def notify_def emit_def Let_def update_simps isProcessing_def
        non_terminal_jobs_def)

section \<open>Properties of the batch tool\<close>

subsection \<open>The retry loop\<close>

lemma MAX_RETRIES_pos: "0 < MAX_RETRIES"
  by (simp add: MAX_RETRIES_def)

lemma calls_after_call: "calls (after_call p mdl b) = calls b @ [(nth_opt (apiKeys b) (keyIndex b), mdl, p)]"
  by (simp add: after_call_def getNextGemini_def)

lemma call_response_eq:
  "call_response gen p mdl b = gen (length (calls b)) (nth_opt (apiKeys b) (keyIndex b)) mdl p"
  by (simp add: call_response_def getNextGemini_def)

lemma attempt_outcome_nonempty: "attempt_outcome resp = Inr t \<Longrightarrow> t \<noteq> []"
  by (auto simp: attempt_outcome_def split: response.splits option.splits if_splits)

lemma retry_loop_last:
  "attempt < MAX_RETRIES \<Longrightarrow>
   length (calls b) < length (calls (snd (retry_loop gen p mdl attempt b))) \<and>
   fst (retry_loop gen p mdl attempt b) =
     (case attempt_outcome
             (gen (length (calls (snd (retry_loop gen p mdl attempt b))) - 1)
                (fst (last (calls (snd (retry_loop gen p mdl attempt b))))) mdl p) of
        Inl m \<Rightarrow> Inl m
      | Inr t \<Rightarrow> Inr (Some t))"
proof (induction gen p mdl attempt b rule: retry_loop.induct)
  case (1 gen p mdl attempt b)
  show ?case
  proof (cases "attempt_outcome (call_response gen p mdl b)")
    case (Inr t)
    with "1.prems" show ?thesis
      by (subst (1 2 3 4) retry_loop.simps) (simp add: calls_after_call call_response_eq)
  next
    case (Inl m)
    show ?thesis
    proof (cases "MAX_RETRIES \<le> attempt + 1")
      case True
      with Inl "1.prems" show ?thesis
        by (subst (1 2 3 4) retry_loop.simps) (simp add: calls_after_call call_response_eq)
    next
      case False
      then have lt: "attempt + 1 < MAX_RETRIES" by simp
      note IH = "1.IH" [OF "1.prems" Inl False lt]
      have step: "retry_loop gen p mdl attempt b =
                  retry_loop gen p mdl (attempt + 1) (after_call p mdl b)"
        using Inl False "1.prems" by (subst retry_loop.simps) simp
      from IH have "length (calls b)
          < length (calls (snd (retry_loop gen p mdl (attempt + 1) (after_call p mdl b))))"
        by (simp add: calls_after_call)
      with IH show ?thesis
        unfolding step by blast
    qed
  qed
qed

lemma retry_loop_not_empty:
  "fst (retry_loop gen p mdl attempt b) = Inr (Some t) \<Longrightarrow> t \<noteq> []"
proof (induction gen p mdl attempt b rule: retry_loop.induct)
  case (1 gen p mdl attempt b)
  from "1.prems" have lt: "attempt < MAX_RETRIES"
    by (subst (asm) retry_loop.simps) (simp split: if_splits)
  show ?case
  proof (cases "attempt_outcome (call_response gen p mdl b)")
    case (Inr t')
    with "1.prems" lt have "t' = t" by (subst (asm) retry_loop.simps) simp
    with Inr show ?thesis by (simp add: attempt_outcome_nonempty)
  next
    case (Inl m)
    show ?thesis
    proof (cases "MAX_RETRIES \<le> attempt + 1")
      case True
      with Inl lt "1.prems" show ?thesis by (subst (asm) retry_loop.simps) simp
    next
      case False
      with Inl lt "1.prems"
      have "fst (retry_loop gen p mdl (attempt + 1) (after_call p mdl b)) = Inr (Some t)"
        by (subst (asm) retry_loop.simps) simp
      with "1.IH" [OF lt Inl False] show ?thesis .
    qed
  qed
qed

lemma calls_attempt_state:
  "length (calls (attempt_state p mdl i b)) = length (calls b) + i"
  by (induction i arbitrary: b) (simp_all add: calls_after_call)

lemma attempt_state_Suc:
  "attempt_state p mdl (Suc i) b = after_call p mdl (attempt_state p mdl i b)"
  by (induction i arbitrary: b) simp_all

lemma retry_loop_exhausts:
  "attempt < MAX_RETRIES \<Longrightarrow>
   (\<forall>i<MAX_RETRIES - attempt. isl (attempt_outcome (attempt_response gen p mdl i b))) \<Longrightarrow>
   snd (retry_loop gen p mdl attempt b) = attempt_state p mdl (MAX_RETRIES - attempt) b \<and>
   fst (retry_loop gen p mdl attempt b) =
     (case attempt_outcome (attempt_response gen p mdl (MAX_RETRIES - attempt - 1) b) of
        Inl m \<Rightarrow> Inl m | Inr t \<Rightarrow> Inr (Some t))"
proof (induction gen p mdl attempt b rule: retry_loop.induct)
  case (1 gen p mdl attempt b)
  from "1.prems"(2) [rule_format, of 0] "1.prems"(1)
  obtain m where m: "attempt_outcome (call_response gen p mdl b) = Inl m"
    by (auto simp: attempt_response_def isl_def)
  show ?case
  proof (cases "MAX_RETRIES \<le> attempt + 1")
    case True
    with "1.prems"(1) have d: "MAX_RETRIES - attempt = Suc 0" by simp
    from m True "1.prems"(1) show ?thesis
      by (subst (1 2) retry_loop.simps) (simp add: d attempt_response_def)
  next
    case False
    then have lt: "attempt + 1 < MAX_RETRIES" by simp
    then have d: "MAX_RETRIES - attempt = Suc (MAX_RETRIES - (attempt + 1))"
      and d1: "MAX_RETRIES - attempt - 1 = Suc (MAX_RETRIES - (attempt + 1) - 1)"
      by simp_all
    have "\<forall>i<MAX_RETRIES - (attempt + 1).
            isl (attempt_outcome (attempt_response gen p mdl i (after_call p mdl b)))"
    proof (intro allI impI)
      fix i assume "i < MAX_RETRIES - (attempt + 1)"
      then have "Suc i < MAX_RETRIES - attempt" by simp
      from "1.prems"(2) [rule_format, OF this]
      show "isl (attempt_outcome (attempt_response gen p mdl i (after_call p mdl b)))"
        by (simp add: attempt_response_def)
    qed
    from "1.IH" [OF "1.prems"(1) m False lt this]
    have IH: "snd (retry_loop gen p mdl (attempt + 1) (after_call p mdl b)) =
        attempt_state p mdl (MAX_RETRIES - (attempt + 1)) (after_call p mdl b)"
      "fst (retry_loop gen p mdl (attempt + 1) (after_call p mdl b)) =
        (case attempt_outcome (attempt_response gen p mdl (MAX_RETRIES - (attempt + 1) - 1)
                 (after_call p mdl b)) of
           Inl m \<Rightarrow> Inl m | Inr t \<Rightarrow> Inr (Some t))"
      by simp_all
    have step: "retry_loop gen p mdl attempt b =
                retry_loop gen p mdl (attempt + 1) (after_call p mdl b)"
      using m False "1.prems"(1) by (subst retry_loop.simps) simp
    show ?thesis
      unfolding step IH
      by (subst d, subst d1) (simp add: attempt_response_def)
  qed
qed

text \<open>
  C3, as the code has it. When the call of \<^verbatim>\<open>generateContent\<close> fails on each of
  the \<open>MAX_RETRIES\<close> attempts (it throws, or its text is empty), each attempt being made
  with the next key of the rotation, \<^verbatim>\<open>generateWithRetry\<close> makes exactly
  \<open>MAX_RETRIES\<close> calls, five, and then throws. What it throws is the error of the last
  attempt, as that attempt raised it: there is no error of its own for exhaustion.
\<close>

theorem generateWithRetry_exhausts:
  "(\<forall>i<MAX_RETRIES. isl (attempt_outcome (attempt_response gen p mdl i b))) \<Longrightarrow>
   length (calls (snd (generateWithRetry gen p mdl b))) = length (calls b) + MAX_RETRIES \<and>
   snd (generateWithRetry gen p mdl b) = attempt_state p mdl MAX_RETRIES b \<and>
   (\<exists>m. fst (generateWithRetry gen p mdl b) = Inl m \<and>
        attempt_outcome (attempt_response gen p mdl (MAX_RETRIES - 1) b) = Inl m)"
proof -
  assume a: "\<forall>i<MAX_RETRIES. isl (attempt_outcome (attempt_response gen p mdl i b))"
  from retry_loop_exhausts [OF MAX_RETRIES_pos, of gen p mdl b] a
  have s: "snd (retry_loop gen p mdl 0 b) = attempt_state p mdl MAX_RETRIES b"
    and f: "fst (retry_loop gen p mdl 0 b) =
      (case attempt_outcome (attempt_response gen p mdl (MAX_RETRIES - 1) b) of
         Inl m \<Rightarrow> Inl m | Inr t \<Rightarrow> Inr (Some t))"
    by simp_all
  from a [rule_format, of "MAX_RETRIES - 1"] MAX_RETRIES_pos
  obtain m where m: "attempt_outcome (attempt_response gen p mdl (MAX_RETRIES - 1) b) = Inl m"
    by (auto simp: isl_def)
  from s f m show ?thesis
    by (simp add: generateWithRetry_def calls_attempt_state)
qed

lemma example_keys:
  "fst (getNextGemini (attempt_state p mdl i example_batch)) =
     GoogleGenAI (Some ([''key-a'', ''key-b'', ''key-c''] ! (i mod 3)))"
proof -
  have "keyIndex (attempt_state p mdl i example_batch) = i mod 3 \<and>
        apiKeys (attempt_state p mdl i example_batch) = [''key-a'', ''key-b'', ''key-c'']"
  proof (induction i)
    case 0
    show ?case by (simp add: example_batch_def)
  next
    case (Suc i)
    then show ?case
      by (simp add: attempt_state_Suc after_call_def getNextGemini_def mod_Suc
            del: attempt_state.simps(2))
  qed
  then show ?thesis by (simp add: getNextGemini_def nth_opt_def)
qed

theorem generateWithRetry_exhausts_witness:
  "length (calls (snd (generateWithRetry failing_provider ''Write about tea.''
      ''gemini-3-flash-preview'' example_batch))) = 5 \<and>
   fst (generateWithRetry failing_provider ''Write about tea.'' ''gemini-3-flash-preview''
      example_batch) = Inl ''503 Service Unavailable'' \<and>
   pool_rejecting 0 (Some ''other-key'') ''gemini-3-flash-preview'' ''Write about tea.''
     = Returns (Some ''# Tea'') \<and>
   length (calls (snd (generateWithRetry pool_rejecting ''Write about tea.''
      ''gemini-3-flash-preview'' example_batch))) = 5 \<and>
   fst (generateWithRetry pool_rejecting ''Write about tea.'' ''gemini-3-flash-preview''
      example_batch) = Inl ''401 API key not valid''"
proof -
  have k: "\<And>i. [''key-a'', ''key-b'', ''key-c''] ! (i mod 3) = ''key-a'' \<or>
               [''key-a'', ''key-b'', ''key-c''] ! (i mod 3) = ''key-b'' \<or>
               [''key-a'', ''key-b'', ''key-c''] ! (i mod 3) = ''key-c''"
  proof -
    fix i :: nat
    have "i mod 3 = 0 \<or> i mod 3 = 1 \<or> i mod 3 = 2" by linarith
    then show "[''key-a'', ''key-b'', ''key-c''] ! (i mod 3) = ''key-a'' \<or>
               [''key-a'', ''key-b'', ''key-c''] ! (i mod 3) = ''key-b'' \<or>
               [''key-a'', ''key-b'', ''key-c''] ! (i mod 3) = ''key-c''"
      by auto
  qed
  have r: "\<And>i. attempt_outcome (attempt_response pool_rejecting ''Write about tea.''
              ''gemini-3-flash-preview'' i example_batch) = Inl ''401 API key not valid''"
    using k by (simp add: attempt_response_def call_response_def example_keys pool_rejecting_def
                  attempt_outcome_def)
  have f: "\<And>i. attempt_outcome (attempt_response failing_provider ''Write about tea.''
              ''gemini-3-flash-preview'' i example_batch) = Inl ''503 Service Unavailable''"
    by (simp add: attempt_response_def call_response_eq failing_provider_def attempt_outcome_def)
  from generateWithRetry_exhausts [where gen = failing_provider and b = example_batch
          and mdl = "''gemini-3-flash-preview''" and p = "''Write about tea.''"] f
  have 1: "length (calls (snd (generateWithRetry failing_provider ''Write about tea.''
      ''gemini-3-flash-preview'' example_batch))) = 5 \<and>
   fst (generateWithRetry failing_provider ''Write about tea.'' ''gemini-3-flash-preview''
      example_batch) = Inl ''503 Service Unavailable''"
    by (auto simp add: example_batch_def MAX_RETRIES_def)
  from generateWithRetry_exhausts [where gen = pool_rejecting and b = example_batch
          and mdl = "''gemini-3-flash-preview''" and p = "''Write about tea.''"] r
  have 2: "length (calls (snd (generateWithRetry pool_rejecting ''Write about tea.''
      ''gemini-3-flash-preview'' example_batch))) = 5 \<and>
   fst (generateWithRetry pool_rejecting ''Write about tea.'' ''gemini-3-flash-preview''
      example_batch) = Inl ''401 API key not valid''"
    by (auto simp add: example_batch_def MAX_RETRIES_def)
  from 1 2 show ?thesis by (simp add: pool_rejecting_def)
qed

text \<open>
  The claim as stated fails: the error thrown after the fifth attempt is the one the
  fifth call raised, one message with one provider and another with another, not an
  error that stands for exhaustion.
\<close>

theorem exhaustion_rethrows_last_error:
  "fst (generateWithRetry limited_at_last ''Write about tea.'' ''gemini-3-flash-preview''
      example_batch) = Inl ''429 Too Many Requests'' \<and>
   limited_at_last 4 (Some ''key-b'') ''gemini-3-flash-preview'' ''Write about tea.''
     = Throws ''429 Too Many Requests'' \<and>
   fst (generateWithRetry failing_provider ''Write about tea.'' ''gemini-3-flash-preview''
      example_batch) = Inl ''503 Service Unavailable'' \<and>
   length (calls (snd (generateWithRetry limited_at_last ''Write about tea.''
      ''gemini-3-flash-preview'' example_batch))) = 5"
  by (simp add: generateWithRetry_def retry_loop.simps MAX_RETRIES_def call_response_eq
        calls_after_call limited_at_last_def failing_provider_def attempt_outcome_def
        example_batch_def)


text \<open>
  C4, as the code has it. In the batch tool \<^verbatim>\<open>generateWithRetry\<close> never returns
  an empty text (nor \<^verbatim>\<open>undefined\<close>), and in any round of its loop a call that
  answers with no text or an empty one is counted as a failed attempt: one call was made,
  and the loop goes on with the next attempt number when one is left, and otherwise throws
  \<^verbatim>\<open>Empty response\<close>. In the server the generation call of
  \<^verbatim>\<open>processFile\<close> is not wrapped in a retry: an empty text makes the invocation
  fail after that one call, with its Job failed.
\<close>

theorem empty_response_is_failure:
  "fst (generateWithRetry gen p mdl b) \<noteq> Inr (Some []) \<and>
   fst (generateWithRetry gen p mdl b) \<noteq> Inr None \<and>
   (\<forall>attempt. attempt < MAX_RETRIES \<longrightarrow>
      call_response gen p mdl b = Returns None \<or> call_response gen p mdl b = Returns (Some []) \<longrightarrow>
      length (calls (after_call p mdl b)) = length (calls b) + 1 \<and>
      retry_loop gen p mdl attempt b =
        (if attempt + 1 < MAX_RETRIES
         then retry_loop gen p mdl (attempt + 1) (after_call p mdl b)
         else (Inl ''Empty response'', after_call p mdl b))) \<and>
   (get_prompt r = Inr pt \<and>
    getGemini (env_GEMINI_API_KEY r) (random r) (geminiApiKeys cfg) = Inr c \<and>
    (generated r = Inr None \<or> generated r = Inr (Some [])) \<longrightarrow>
      fst (processFile r jobId fid url cfg s) =
        Inl ''Gemini generation failed: Gemini returned empty content'' \<and>
      map_option status (find_job (snd (processFile r jobId fid url cfg s)) jobId) = Some Failed \<and>
      length (generate_calls (trace (snd (processFile r jobId fid url cfg s)))) =
        length (generate_calls (trace s)) + 1)"
proof (intro conjI allI impI)
  show "fst (generateWithRetry gen p mdl b) \<noteq> Inr (Some [])"
    using retry_loop_not_empty [of gen p mdl 0 b "[]"] by (auto simp: generateWithRetry_def)
  show "fst (generateWithRetry gen p mdl b) \<noteq> Inr None"
    using retry_loop_last [OF MAX_RETRIES_pos, of b gen p mdl]
    by (auto simp: generateWithRetry_def split: sum.splits)
next
  fix attempt
  assume lt: "attempt < MAX_RETRIES"
    and e: "call_response gen p mdl b = Returns None \<or> call_response gen p mdl b = Returns (Some [])"
  show "length (calls (after_call p mdl b)) = length (calls b) + 1"
    by (simp add: calls_after_call)
  from e have "attempt_outcome (call_response gen p mdl b) = Inl ''Empty response''"
    by (auto simp: attempt_outcome_def)
  with lt show "retry_loop gen p mdl attempt b =
        (if attempt + 1 < MAX_RETRIES
         then retry_loop gen p mdl (attempt + 1) (after_call p mdl b)
         else (Inl ''Empty response'', after_call p mdl b))"
    by (subst retry_loop.simps) auto
next
  assume a: "get_prompt r = Inr pt \<and>
    getGemini (env_GEMINI_API_KEY r) (random r) (geminiApiKeys cfg) = Inr c \<and>
    (generated r = Inr None \<or> generated r = Inr (Some []))"
  then have g: "generation_step (generated r) =
                  Inl ''Gemini generation failed: Gemini returned empty content''"
    by (auto simp: generation_step_def)
  show "fst (processFile r jobId fid url cfg s) =
        Inl ''Gemini generation failed: Gemini returned empty content''"
    using a g
    by (rule_tac processFile_cases
          [where r = r and jobId = jobId and fid = fid and url = url and cfg = cfg and s = s])
       simp_all
  show "map_option status (find_job (snd (processFile r jobId fid url cfg s)) jobId) = Some Failed"
    using a g
    by (rule_tac processFile_cases
          [where r = r and jobId = jobId and fid = fid and url = url and cfg = cfg and s = s])
       (simp_all add: fail_simps)
  show "length (generate_calls (trace (snd (processFile r jobId fid url cfg s)))) =
        length (generate_calls (trace s)) + 1"
    using a g
    by (rule_tac processFile_cases
          [where r = r and jobId = jobId and fid = fid and url = url and cfg = cfg and s = s])
       (simp_all add: fail_job_def generate_calls_simps)
qed

theorem empty_response_is_failure_witness:
  "call_response empty_then_text ''Write about tea.'' ''gemini-3-flash-preview'' example_batch
     = Returns (Some []) \<and>
   fst (generateWithRetry empty_then_text ''Write about tea.'' ''gemini-3-flash-preview''
          example_batch) = Inr (Some ''# Tea'') \<and>
   calls (snd (generateWithRetry empty_then_text ''Write about tea.'' ''gemini-3-flash-preview''
          example_batch)) =
     [(Some ''key-a'', ''gemini-3-flash-preview'', ''Write about tea.''),
      (Some ''key-b'', ''gemini-3-flash-preview'', ''Write about tea.'')] \<and>
   fst (processFile (example_run\<lparr>generated := Inr None\<rparr>) ''job-1'' ''file-1''
          ''https://files.example/p1.txt'' example_config empty_server) =
     Inl ''Gemini generation failed: Gemini returned empty content''"
proof -
  have e: "call_response empty_then_text ''Write about tea.'' ''gemini-3-flash-preview''
             example_batch = Returns (Some [])"
    by (simp add: call_response_eq empty_then_text_def example_batch_def)
  have lt: "0 < MAX_RETRIES" "0 + 1 < MAX_RETRIES" by (simp_all add: MAX_RETRIES_def)
  from empty_response_is_failure [where gen = empty_then_text and p = "''Write about tea.''"
         and mdl = "''gemini-3-flash-preview''" and b = example_batch] e lt
  have step: "retry_loop empty_then_text ''Write about tea.'' ''gemini-3-flash-preview'' 0 example_batch =
     retry_loop empty_then_text ''Write about tea.'' ''gemini-3-flash-preview'' (0 + 1)
       (after_call ''Write about tea.'' ''gemini-3-flash-preview'' example_batch)"
    by auto
  have second: "retry_loop empty_then_text ''Write about tea.'' ''gemini-3-flash-preview'' (0 + 1)
       (after_call ''Write about tea.'' ''gemini-3-flash-preview'' example_batch) =
     (Inr (Some ''# Tea''),
      after_call ''Write about tea.'' ''gemini-3-flash-preview''
        (after_call ''Write about tea.'' ''gemini-3-flash-preview'' example_batch))"
    by (subst retry_loop.simps)
       (simp add: MAX_RETRIES_def call_response_eq calls_after_call empty_then_text_def
          attempt_outcome_def)
  have batch: "fst (generateWithRetry empty_then_text ''Write about tea.''
          ''gemini-3-flash-preview'' example_batch) = Inr (Some ''# Tea'') \<and>
     calls (snd (generateWithRetry empty_then_text ''Write about tea.'' ''gemini-3-flash-preview''
          example_batch)) =
     [(Some ''key-a'', ''gemini-3-flash-preview'', ''Write about tea.''),
      (Some ''key-b'', ''gemini-3-flash-preview'', ''Write about tea.'')]"
    unfolding generateWithRetry_def step second
    by (simp add: call_response_eq calls_after_call example_batch_def empty_then_text_def
          after_call_def getNextGemini_def nth_opt_def)
  from empty_response_is_failure [where r = "example_run\<lparr>generated := Inr None\<rparr>"
         and pt = "''Write about tea.''" and cfg = example_config
         and c = "GoogleGenAI (Some ''key-b'')" and jobId = "''job-1''" and fid = "''file-1''"
         and url = "''https://files.example/p1.txt''" and s = empty_server]
  have server: "fst (processFile (example_run\<lparr>generated := Inr None\<rparr>) ''job-1'' ''file-1''
          ''https://files.example/p1.txt'' example_config empty_server) =
     Inl ''Gemini generation failed: Gemini returned empty content''"
    by (simp add: example_run_def example_config_def getGemini_example valid_key_def sublist_code
          nth_opt_def)
  from e batch server show ?thesis by simp
qed

text \<open>
  The claim as stated fails in the server: the generation call answers with an empty
  text, and the invocation ends failed after that single call.
\<close>

theorem server_empty_response_not_retried:
  "fst (processFile (example_run\<lparr>generated := Inr (Some [])\<rparr>) ''job-1'' ''file-1''
          ''https://files.example/p1.txt'' example_config empty_server) =
     Inl ''Gemini generation failed: Gemini returned empty content'' \<and>
   generate_calls (trace (snd (processFile (example_run\<lparr>generated := Inr (Some [])\<rparr>) ''job-1''
          ''file-1'' ''https://files.example/p1.txt'' example_config empty_server))) =
     [(Some ''key-b'', ''gemini-3-flash-preview'', ''Write about tea.'')] \<and>
   map_option status
     (find_job (snd (processFile (example_run\<lparr>generated := Inr (Some [])\<rparr>) ''job-1''
          ''file-1'' ''https://files.example/p1.txt'' example_config empty_server)) ''job-1'')
     = Some Failed"
  by (simp add: processFile_def processFile_try_def Let_def example_run_def example_config_def
        empty_server_def getGemini_example valid_key_def sublist_code generation_step_def nth_opt_def
        fail_simps generate_calls_simps)

subsection \<open>Choosing a key\<close>

lemma getNextGemini_times_nth:
  "keyIndex b < length (apiKeys b) \<Longrightarrow> i < k \<Longrightarrow>
   fst (getNextGemini_times k b) ! i =
     GoogleGenAI (Some (apiKeys b ! ((keyIndex b + i) mod length (apiKeys b))))"
proof (induction k arbitrary: b i)
  case 0
  then show ?case by simp
next
  case (Suc k)
  show ?case
  proof (cases i)
    case 0
    with Suc.prems show ?thesis by (simp add: getNextGemini_def nth_opt_def)
  next
    case (Suc j)
    let ?b = "snd (getNextGemini b)"
    from Suc.prems(1) have "0 < length (apiKeys b)" by linarith
    then have "(keyIndex b + 1) mod length (apiKeys b) < length (apiKeys b)"
      by (rule mod_less_divisor)
    then have kb: "keyIndex ?b < length (apiKeys ?b)" and ab: "apiKeys ?b = apiKeys b"
      and ki: "keyIndex ?b = (keyIndex b + 1) mod length (apiKeys b)"
      by (simp_all add: getNextGemini_def)
    from Suc Suc.prems have "j < k" by simp
    from Suc.IH [OF kb this]
    have "fst (getNextGemini_times k ?b) ! j =
          GoogleGenAI (Some (apiKeys b ! (((keyIndex b + 1) mod length (apiKeys b) + j)
                                            mod length (apiKeys b))))"
      by (simp add: ab ki)
    moreover have "((keyIndex b + 1) mod length (apiKeys b) + j) mod length (apiKeys b)
                   = (keyIndex b + Suc j) mod length (apiKeys b)"
      by (simp add: mod_add_left_eq)
    ultimately show ?thesis using Suc by simp
  qed
qed

text \<open>
  C5, as the code has it. In the batch tool, \<^verbatim>\<open>getNextGemini\<close> rotates: from the
  start of the process, with \<open>N \<ge> 1\<close> keys, the call number \<open>i + 1\<close> returns the key
  at index \<open>i mod N\<close>, so the call number \<open>N + 1\<close> returns the first key again. In the
  server, \<^verbatim>\<open>getGemini\<close> does not rotate: given provided keys of which some are
  valid, every call returns the valid key at index
  \<^verbatim>\<open>Math.floor(Math.random() * validKeys.length)\<close>, as the doubles give it,
  whatever was returned before; that index is always within the valid keys.
\<close>

theorem credential_selection:
  "(keyIndex b = 0 \<and> apiKeys b \<noteq> [] \<and> i < k \<longrightarrow>
      fst (getNextGemini_times k b) ! i =
        GoogleGenAI (Some (apiKeys b ! (i mod length (apiKeys b))))) \<and>
   (keyIndex b = 0 \<and> apiKeys b \<noteq> [] \<longrightarrow>
      fst (getNextGemini_times (length (apiKeys b) + 1) b) ! length (apiKeys b) =
        GoogleGenAI (Some (apiKeys b ! 0))) \<and>
   (filter valid_key ks \<noteq> [] \<and> is_unit_double rnd \<longrightarrow>
      floor_of_product rnd (length (filter valid_key ks)) < length (filter valid_key ks) \<and>
      getGemini env_key rnd (Some ks) =
        Inr (GoogleGenAI
               (Some (filter valid_key ks !
                        floor_of_product rnd (length (filter valid_key ks))))))"
proof (intro conjI impI)
  assume a: "keyIndex b = 0 \<and> apiKeys b \<noteq> [] \<and> i < k"
  then show "fst (getNextGemini_times k b) ! i =
        GoogleGenAI (Some (apiKeys b ! (i mod length (apiKeys b))))"
    using getNextGemini_times_nth [of b i k] by simp
next
  assume a: "keyIndex b = 0 \<and> apiKeys b \<noteq> []"
  then show "fst (getNextGemini_times (length (apiKeys b) + 1) b) ! length (apiKeys b) =
        GoogleGenAI (Some (apiKeys b ! 0))"
    using getNextGemini_times_nth [of b "length (apiKeys b)" "length (apiKeys b) + 1"] by simp
next
  assume a: "filter valid_key ks \<noteq> [] \<and> is_unit_double rnd"
  let ?n = "length (filter valid_key ks)"
  from a have "0 < ?n" by simp
  with a show lt: "floor_of_product rnd ?n < ?n"
    by (simp add: floor_of_product_less)
  from lt a show "getGemini env_key rnd (Some ks) =
        Inr (GoogleGenAI (Some (filter valid_key ks ! floor_of_product rnd ?n)))"
    by (simp add: getGemini_def nth_opt_def Let_def)
qed

theorem credential_selection_witness:
  "fst (getNextGemini_times 4 example_batch) ! 3 = GoogleGenAI (Some ''key-a'') \<and>
   getGemini None one_half (Some [''key-a'', ''key-b'']) = Inr (GoogleGenAI (Some ''key-b'')) \<and>
   getGemini None two_thirds (Some [''key-a'', ''key-b'', ''key-c''])
     = Inr (GoogleGenAI (Some ''key-c'')) \<and>
   getGemini None five_sixths
       (Some [''key-a'', ''key-b'', ''key-c'', ''key-d'', ''key-e'', ''key-f''])
     = Inr (GoogleGenAI (Some ''key-f''))"
proof -
  have d: "is_unit_double one_half" "is_unit_double two_thirds" "is_unit_double five_sixths"
    by (simp_all add: is_unit_double_def one_half_def two_thirds_def five_sixths_def)
  from credential_selection [where b = example_batch and i = 3 and k = 4
          and ks = "[''key-a'', ''key-b'']" and rnd = one_half and env_key = None] d
  have 1: "fst (getNextGemini_times 4 example_batch) ! 3 = GoogleGenAI (Some ''key-a'') \<and>
     getGemini None one_half (Some [''key-a'', ''key-b'']) = Inr (GoogleGenAI (Some ''key-b''))"
    by (simp add: example_batch_def valid_key_def sublist_code floor_of_product_examples)
  from credential_selection [where b = example_batch and i = 3 and k = 4
          and ks = "[''key-a'', ''key-b'', ''key-c'']" and rnd = two_thirds and env_key = None] d
  have 2: "getGemini None two_thirds (Some [''key-a'', ''key-b'', ''key-c''])
     = Inr (GoogleGenAI (Some ''key-c''))"
    by (simp add: valid_key_def sublist_code floor_of_product_examples)
  from credential_selection [where b = example_batch and i = 3 and k = 4
          and ks = "[''key-a'', ''key-b'', ''key-c'', ''key-d'', ''key-e'', ''key-f'']"
          and rnd = five_sixths and env_key = None] d
  have 3: "getGemini None five_sixths
       (Some [''key-a'', ''key-b'', ''key-c'', ''key-d'', ''key-e'', ''key-f''])
     = Inr (GoogleGenAI (Some ''key-f''))"
    by (simp add: valid_key_def sublist_code floor_of_product_examples)
  from 1 2 3 show ?thesis by simp
qed

text \<open>
  The claim as stated fails for \<^verbatim>\<open>getGemini\<close>: with two valid keys and
  \<^verbatim>\<open>Math.random()\<close> at one half, the first call returns the second key, not the
  key at index \<open>(1 - 1) mod 2\<close>.
\<close>

theorem getGemini_not_round_robin:
  "getGemini None one_half (Some [''key-a'', ''key-b'']) = Inr (GoogleGenAI (Some ''key-b'')) \<and>
   nth_opt [''key-a'', ''key-b''] ((1 - 1) mod 2) = Some ''key-a''"
  by (simp add: getGemini_def valid_key_def sublist_code nth_opt_def floor_of_product_examples)

subsection \<open>The queue\<close>

lemma active_update_Some:
  "w < length ws \<Longrightarrow> ws ! w = None \<Longrightarrow>
   mset (active (ws[w := Some i])) = add_mset i (mset (active ws))"
  by (induction ws arbitrary: w) (auto simp: active_def split: nat.splits)

lemma active_update_None:
  "w < length ws \<Longrightarrow> ws ! w = Some i \<Longrightarrow>
   add_mset i (mset (active (ws[w := None]))) = mset (active ws)"
  by (induction ws arbitrary: w) (auto simp: active_def split: nat.splits)

lemma active_empty: "active ws = [] \<longleftrightarrow> list_all (\<lambda>x. x = None) ws"
  by (induction ws) (auto simp: active_def)

lemma queue_inv_next:
  assumes "queue_inv files proc q" "w < length (workers q)" "workers q ! w = None"
  shows "queue_inv files proc (worker_next files w q)"
proof (cases "index q \<ge> length files")
  case True
  moreover from assms(2,3) have "(workers q)[w := None] = workers q"
    by (metis list_update_id)
  ultimately show ?thesis using assms(1) by (simp add: worker_next_def queue_inv_def)
next
  case False
  then have lt: "index q < length files" by simp
  from assms(1) have s: "started q = take (index q) files" by (simp add: queue_inv_def)
  from assms(1) have m: "mset (results q) +
      image_mset (\<lambda>i. proc i (files ! i)) (mset (active (workers q))) =
      image_mset (\<lambda>i. proc i (files ! i)) (mset [0..<index q])"
    by (simp add: queue_inv_def)
  show ?thesis
    using lt s m active_update_Some [OF assms(2,3), of "index q"]
    by (simp add: worker_next_def queue_inv_def take_Suc_conv_app_nth)
qed

lemma queue_inv_finish:
  assumes "queue_inv files proc q" "w < length (workers q)" "workers q ! w = Some i"
  shows "queue_inv files proc
           (q\<lparr>results := results q @ [proc i (files ! i)], workers := (workers q)[w := None]\<rparr>)"
proof -
  from assms(1) have m: "mset (results q) +
      image_mset (\<lambda>i. proc i (files ! i)) (mset (active (workers q))) =
      image_mset (\<lambda>i. proc i (files ! i)) (mset [0..<index q])"
    by (simp add: queue_inv_def)
  from active_update_None [OF assms(2,3)]
  have "mset (active (workers q)) = add_mset i (mset (active ((workers q)[w := None])))"
    by simp
  with m assms(1) show ?thesis by (simp add: queue_inv_def)
qed

lemma worker_resume_Some:
  "w < length (workers q) \<Longrightarrow> workers q ! w = Some i \<Longrightarrow>
   worker_resume files proc w q =
     worker_next files w
       (q\<lparr>results := results q @ [proc i (files ! i)], workers := (workers q)[w := None]\<rparr>)"
  by (simp add: worker_resume_def worker_next_def)

lemma queue_inv_resume:
  assumes "queue_inv files proc q"
  shows "queue_inv files proc (worker_resume files proc w q)"
proof (cases "w < length (workers q)")
  case False
  with assms show ?thesis by (simp add: worker_resume_def)
next
  case True
  show ?thesis
  proof (cases "workers q ! w")
    case None
    with True assms show ?thesis by (simp add: worker_resume_def)
  next
    case (Some i)
    from queue_inv_finish [OF assms True Some]
    show ?thesis
      unfolding worker_resume_Some [OF True Some]
      by (rule queue_inv_next) (use True in simp_all)
  qed
qed

lemma worker_next_index: "index q \<le> index (worker_next files w q)"
  by (simp add: worker_next_def)

lemma worker_next_length: "length (workers (worker_next files w q)) = length (workers q)"
  by (simp add: worker_next_def)

lemma worker_resume_length: "length (workers (worker_resume files proc w q)) = length (workers q)"
  by (simp add: worker_resume_def worker_next_length split: option.splits)

lemma busy_resume:
  assumes "busy files q"
  shows "busy files (worker_resume files proc w q)"
proof (cases "w < length (workers q) \<and> workers q ! w \<noteq> None")
  case False
  with assms show ?thesis by (auto simp: worker_resume_def)
next
  case True
  then obtain i where i: "workers q ! w = Some i" and w: "w < length (workers q)" by auto
  show ?thesis
  proof (cases "index q < length files")
    case False
    then show ?thesis using i w by (simp add: worker_resume_def worker_next_def busy_def)
  next
    case True
    with assms have "None \<notin> set (workers q)" by (simp add: busy_def)
    then have "None \<notin> set ((workers q)[w := Some (index q)])"
      by (metis insert_iff option.distinct(1) set_update_subset_insert subsetD)
    with True i w show ?thesis by (simp add: worker_resume_def worker_next_def busy_def)
  qed
qed

lemma active_replicate: "active (replicate C None) = []"
  by (simp add: active_def)

lemma start_phase:
  "k \<le> C \<Longrightarrow>
   (let q = foldl (\<lambda>q w. worker_next files w q)
              \<lparr>index = 0, results = [], workers = replicate C None, started = []\<rparr> [0..<k]
    in queue_inv files proc q \<and> length (workers q) = C \<and>
       (\<forall>w. k \<le> w \<and> w < C \<longrightarrow> workers q ! w = None) \<and>
       (index q < length files \<longrightarrow> (\<forall>w<k. workers q ! w \<noteq> None)))"
proof (induction k)
  case 0
  show ?case by (simp add: queue_inv_def active_replicate)
next
  case (Suc k)
  let ?q = "foldl (\<lambda>q w. worker_next files w q)
              \<lparr>index = 0, results = [], workers = replicate C None, started = []\<rparr> [0..<k]"
  from Suc have k: "k < C" by simp
  from Suc.IH k have inv: "queue_inv files proc ?q" and len: "length (workers ?q) = C"
    and free: "\<forall>w. k \<le> w \<and> w < C \<longrightarrow> workers ?q ! w = None"
    and taken: "index ?q < length files \<longrightarrow> (\<forall>w<k. workers ?q ! w \<noteq> None)"
    by (simp_all add: Let_def)
  from free k have none: "workers ?q ! k = None" by simp
  have 1: "queue_inv files proc (worker_next files k ?q)"
    using inv k len none by (intro queue_inv_next) simp_all
  have 2: "length (workers (worker_next files k ?q)) = C"
    using len by (simp add: worker_next_length)
  have 3: "\<forall>w. Suc k \<le> w \<and> w < C \<longrightarrow> workers (worker_next files k ?q) ! w = None"
    using free by (auto simp: worker_next_def)
  have 4: "index (worker_next files k ?q) < length files \<longrightarrow>
           (\<forall>w<Suc k. workers (worker_next files k ?q) ! w \<noteq> None)"
  proof (intro impI allI)
    fix w assume a: "index (worker_next files k ?q) < length files" and w: "w < Suc k"
    from a worker_next_index [of ?q files k] have lt: "index ?q < length files" by simp
    show "workers (worker_next files k ?q) ! w \<noteq> None"
    proof (cases "w = k")
      case True
      with lt k len show ?thesis by (simp add: worker_next_def)
    next
      case False
      with w have "w < k" by simp
      with taken lt have "workers ?q ! w \<noteq> None" by simp
      with False lt show ?thesis by (simp add: worker_next_def)
    qed
  qed
  from 1 2 3 4 show ?case by (simp add: Let_def)
qed

lemma start_workers_inv:
  "queue_inv files proc (start_workers files C) \<and> length (workers (start_workers files C)) = C \<and>
   busy files (start_workers files C)"
proof -
  from start_phase [of C C files proc]
  have inv: "queue_inv files proc (start_workers files C)"
    and len: "length (workers (start_workers files C)) = C"
    and taken: "index (start_workers files C) < length files \<longrightarrow>
                  (\<forall>w<C. workers (start_workers files C) ! w \<noteq> None)"
    by (simp_all add: start_workers_def Let_def)
  from len taken have "busy files (start_workers files C)"
    by (auto simp: busy_def in_set_conv_nth)
  with inv len show ?thesis by simp
qed

lemma run_schedule_inv:
  "queue_inv files proc q \<Longrightarrow> busy files q \<Longrightarrow>
   queue_inv files proc (run_schedule files proc sched q) \<and>
   busy files (run_schedule files proc sched q) \<and>
   length (workers (run_schedule files proc sched q)) = length (workers q)"
proof (induction sched arbitrary: q)
  case Nil
  then show ?case by (simp add: run_schedule_def)
next
  case (Cons w ws)
  from Cons.IH [OF queue_inv_resume [OF Cons.prems(1), of w] busy_resume [OF Cons.prems(2), of proc w]]
  show ?case by (simp add: run_schedule_def worker_resume_length)
qed

lemma worker_resume_results:
  "w < length (workers q) \<Longrightarrow> workers q ! w \<noteq> None \<Longrightarrow>
   length (results (worker_resume files proc w q)) = length (results q) + 1"
  by (auto simp: worker_resume_def worker_next_def)

lemma valid_schedule_results:
  "valid_schedule files proc sched q \<Longrightarrow>
   length (results (run_schedule files proc sched q)) = length (results q) + length sched"
proof (induction sched arbitrary: q)
  case Nil
  then show ?case by (simp add: run_schedule_def)
next
  case (Cons w ws)
  from Cons.prems have v: "valid_schedule files proc ws (worker_resume files proc w q)"
    and w: "w < length (workers q)" "workers q ! w \<noteq> None"
    by simp_all
  from Cons.IH [OF v] worker_resume_results [OF w, of files proc]
  show ?case by (simp add: run_schedule_def)
qed

lemma queue_inv_size:
  "queue_inv files proc q \<Longrightarrow> length (results q) + length (active (workers q)) = index q"
proof -
  assume "queue_inv files proc q"
  then have "size (mset (results q) +
      image_mset (\<lambda>i. proc i (files ! i)) (mset (active (workers q)))) =
      size (image_mset (\<lambda>i. proc i (files ! i)) (mset [0..<index q]))"
    by (simp only: queue_inv_def)
  then show ?thesis by simp
qed

lemma finished_queue:
  assumes "queue_inv files proc q" "busy files q" "workers q \<noteq> []" "all_returned q"
  shows "mset (results q) = mset (map (\<lambda>i. proc i (files ! i)) [0..<length files]) \<and>
         length (results q) = length files \<and> started q = files"
proof -
  from assms(4) have a: "active (workers q) = []" by (simp add: active_empty all_returned_def)
  from assms(3,4) have "None \<in> set (workers q)"
    by (cases "workers q") (simp_all add: all_returned_def)
  with assms(2) have "\<not> index q < length files" by (auto simp: busy_def)
  with assms(1) have i: "index q = length files" by (simp add: queue_inv_def)
  from assms(1) a i have "mset (results q) = mset (map (\<lambda>i. proc i (files ! i)) [0..<length files])"
    by (simp add: queue_inv_def)
  moreover from queue_inv_size [OF assms(1)] a i have "length (results q) = length files" by simp
  moreover from assms(1) i have "started q = files" by (simp add: queue_inv_def)
  ultimately show ?thesis by simp
qed

text \<open>
  C9. With at least one worker, whenever \<^verbatim>\<open>runQueue\<close> returns, under any order
  in which the awaited calls come back, every file of the batch was handed to
  \<^verbatim>\<open>processFile\<close> exactly once, in the order of the list, and the results are
  exactly the results of the items, one each, in some order: whether an item's result is
  a success or a failure makes no difference. And it does return: after as many returns
  of awaited calls as there are files, all workers have left their loop.
\<close>

theorem runQueue_each_item_once:
  assumes "1 \<le> C"
  shows "(\<forall>rs. runQueue C files proc sched = Some rs \<longrightarrow>
            mset rs = mset (map (\<lambda>i. proc i (files ! i)) [0..<length files]) \<and>
            length rs = length files \<and>
            started (runQueue_state C files proc sched) = files) \<and>
         (valid_schedule files proc sched (start_workers files C) \<and> length sched = length files \<longrightarrow>
            runQueue C files proc sched \<noteq> None)"
proof (intro conjI allI impI)
  let ?q = "runQueue_state C files proc sched"
  from start_workers_inv [of files proc C]
  have s: "queue_inv files proc (start_workers files C)" "busy files (start_workers files C)"
    "length (workers (start_workers files C)) = C" by simp_all
  from run_schedule_inv [OF s(1,2), of sched] s(3)
  have q: "queue_inv files proc ?q" "busy files ?q" "length (workers ?q) = C"
    by (simp_all add: runQueue_state_def)
  from q(3) assms have ne: "workers ?q \<noteq> []" by auto
  {
    fix rs assume "runQueue C files proc sched = Some rs"
    then have r: "all_returned ?q" "rs = results ?q"
      by (simp_all add: runQueue_def split: if_splits)
    from finished_queue [OF q(1,2) ne r(1)] r(2)
    show "mset rs = mset (map (\<lambda>i. proc i (files ! i)) [0..<length files])"
      and "length rs = length files" and "started ?q = files"
      by simp_all
  }
  {
    assume v: "valid_schedule files proc sched (start_workers files C) \<and> length sched = length files"
    from s(1) have "length (results (start_workers files C)) \<le> index (start_workers files C)"
      using queue_inv_size [OF s(1)] by simp
    from valid_schedule_results [of files proc sched "start_workers files C"] v
    have "length files \<le> length (results ?q)" by (simp add: runQueue_state_def)
    moreover from q(1) have "index ?q \<le> length files" by (simp add: queue_inv_def)
    ultimately have "length (active (workers ?q)) = 0"
      using queue_inv_size [OF q(1)] by arith
    then have "all_returned ?q" by (simp add: active_empty all_returned_def)
    then show "runQueue C files proc sched \<noteq> None" by (simp add: runQueue_def)
  }
qed

theorem runQueue_each_item_once_witness:
  "runQueue 2 example_files example_proc [1, 0, 1] =
     Some [Not_done ''Rice.txt'' ''Empty response'', Succeeded ''Tea.txt'', Succeeded ''Salt.txt''] \<and>
   mset [Not_done ''Rice.txt'' ''Empty response'', Succeeded ''Tea.txt'', Succeeded ''Salt.txt''] =
     mset (map (\<lambda>i. example_proc i (example_files ! i)) [0..<length example_files]) \<and>
   started (runQueue_state 2 example_files example_proc [1, 0, 1]) = example_files \<and>
   valid_schedule example_files example_proc [0, 0, 0] (start_workers example_files CONCURRENCY_LIMIT) \<and>
   runQueue CONCURRENCY_LIMIT example_files example_proc [0, 0, 0] \<noteq> None"
proof -
  have r: "runQueue 2 example_files example_proc [1, 0, 1] =
     Some [Not_done ''Rice.txt'' ''Empty response'', Succeeded ''Tea.txt'', Succeeded ''Salt.txt'']"
    by code_simp
  have v: "valid_schedule example_files example_proc [0, 0, 0] (start_workers example_files CONCURRENCY_LIMIT)"
    by code_simp
  have l: "length [0, 0, 0 :: nat] = length example_files"
    by (simp add: example_files_def)
  from runQueue_each_item_once [of 2 example_files example_proc "[1, 0, 1]"] r
  have first: "mset [Not_done ''Rice.txt'' ''Empty response'', Succeeded ''Tea.txt'',
                     Succeeded ''Salt.txt''] =
     mset (map (\<lambda>i. example_proc i (example_files ! i)) [0..<length example_files]) \<and>
     started (runQueue_state 2 example_files example_proc [1, 0, 1]) = example_files"
    by simp
  from runQueue_each_item_once [of CONCURRENCY_LIMIT example_files example_proc "[0, 0, 0]"] v l
  have "runQueue CONCURRENCY_LIMIT example_files example_proc [0, 0, 0] \<noteq> None"
    by (simp add: CONCURRENCY_LIMIT_def)
  with r v first show ?thesis by simp
qed

subsection \<open>A failed reconciliation\<close>

lemma trace_updateJob_mono: "e \<in> set (trace s) \<Longrightarrow> e \<in> set (trace (updateJob now j u s))"
  by (auto simp: updateJob_def notify_def Let_def split: option.splits)

text \<open>
  C7, as the code has it. In the server, when the fetch, the generation and the upload
  succeed and the \<^verbatim>\<open>axios.put\<close> to the record store throws,
  \<^verbatim>\<open>processFile\<close> only warns: it returns the success object and its Job is
  stored completed at 100 with the uploaded URL as result. In the batch tool the same
  \<^verbatim>\<open>axios.put\<close> stands in the one \<^verbatim>\<open>try\<close> of
  \<^verbatim>\<open>processFile\<close>: when it throws after the file was written, the item is
  returned as not done, with the error's message.
\<close>

theorem reconciliation_failure:
  "(get_prompt r = Inr p \<and>
    getGemini (env_GEMINI_API_KEY r) (random r) (geminiApiKeys cfg) = Inr c \<and>
    generation_step (generated r) = Inr g \<and> uploaded r = Inr u \<and> put_done r = Inl m \<longrightarrow>
      fst (processFile r jobId fid url cfg s) =
        Inr \<lparr>out_jobId = jobId, out_fileId = fid, generatedUrl = u, content = g\<rparr> \<and>
      find_job (snd (processFile r jobId fid url cfg s)) jobId =
        Some \<lparr>id' = jobId, fileId = fid, status = Completed, progress = 100,
              message = ''Process completed successfully!'', result = Some u, error = None,
              startTime = now_start r, endTime = Some (now_end r)\<rparr> \<and>
      Console_warn (''['' @ jobId @ ''] Warning: Failed to update status on external API.'')
        \<in> set (trace (snd (processFile r jobId fid url cfg s)))) \<and>
   (prompt_got ir = Inr p' \<and>
    fst (generateWithRetry gen p' mdl (effect (Get (file_secureUrl item)) b)) = Inr (Some g') \<and>
    file_written ir = Inr () \<and> marked ir = Inl m' \<longrightarrow>
      fst (processFile_batch gen slug ir item mdl b) = Not_done (originalFilename item) m' \<and>
      \<not> success (fst (processFile_batch gen slug ir item mdl b)) \<and>
      Write_file (slug (originalFilename item)) g'
        \<in> set (effects (snd (processFile_batch gen slug ir item mdl b))))"
proof (intro conjI impI)
  assume a: "get_prompt r = Inr p \<and>
    getGemini (env_GEMINI_API_KEY r) (random r) (geminiApiKeys cfg) = Inr c \<and>
    generation_step (generated r) = Inr g \<and> uploaded r = Inr u \<and> put_done r = Inl m"
  show "fst (processFile r jobId fid url cfg s) =
        Inr \<lparr>out_jobId = jobId, out_fileId = fid, generatedUrl = u, content = g\<rparr>"
    using a
    by (rule_tac processFile_cases
          [where r = r and jobId = jobId and fid = fid and url = url and cfg = cfg and s = s])
       simp_all
  show "find_job (snd (processFile r jobId fid url cfg s)) jobId =
        Some \<lparr>id' = jobId, fileId = fid, status = Completed, progress = 100,
              message = ''Process completed successfully!'', result = Some u, error = None,
              startTime = now_start r, endTime = Some (now_end r)\<rparr>"
    using a
    by (rule_tac processFile_cases
          [where r = r and jobId = jobId and fid = fid and url = url and cfg = cfg and s = s])
       (simp_all add: fail_simps)
  show "Console_warn (''['' @ jobId @ ''] Warning: Failed to update status on external API.'')
        \<in> set (trace (snd (processFile r jobId fid url cfg s)))"
    using a
    by (rule_tac processFile_cases
          [where r = r and jobId = jobId and fid = fid and url = url and cfg = cfg and s = s])
       (auto intro!: trace_updateJob_mono simp: swallow_put_failure_def emit_def)
next
  assume b: "prompt_got ir = Inr p' \<and>
    fst (generateWithRetry gen p' mdl (effect (Get (file_secureUrl item)) b)) = Inr (Some g') \<and>
    file_written ir = Inr () \<and> marked ir = Inl m'"
  then show "fst (processFile_batch gen slug ir item mdl b) = Not_done (originalFilename item) m'"
    by (auto simp: processFile_batch_def Let_def split: prod.splits)
  then show "\<not> success (fst (processFile_batch gen slug ir item mdl b))" by simp
  from b show "Write_file (slug (originalFilename item)) g'
        \<in> set (effects (snd (processFile_batch gen slug ir item mdl b)))"
    by (auto simp: processFile_batch_def Let_def effect_def split: prod.splits)
qed

lemma text_provider_result:
  "generateWithRetry text_provider p mdl b = (Inr (Some ''# Tea''), after_call p mdl b)"
  unfolding generateWithRetry_def
  by (subst retry_loop.simps)
     (simp add: MAX_RETRIES_def call_response_def attempt_outcome_def text_provider_def
        split: client.splits)

theorem reconciliation_failure_witness:
  "fst (processFile (example_run\<lparr>put_done := Inl ''Request failed with status code 500''\<rparr>)
          ''job-1'' ''file-1'' ''https://files.example/p1.txt'' example_config empty_server) =
     Inr \<lparr>out_jobId = ''job-1'', out_fileId = ''file-1'',
          generatedUrl = ''https://res.example/article.mdx'', content = ''# Tea''\<rparr> \<and>
   map_option status
     (find_job (snd (processFile (example_run\<lparr>put_done := Inl ''Request failed with status code 500''\<rparr>)
          ''job-1'' ''file-1'' ''https://files.example/p1.txt'' example_config empty_server))
        ''job-1'') = Some Completed \<and>
   fst (processFile_batch text_provider example_slug example_item_run example_file
          ''gemini-3-flash-preview'' example_batch) =
     Not_done ''Tea.txt'' ''Request failed with status code 500''"
  using reconciliation_failure
    [where r = "example_run\<lparr>put_done := Inl ''Request failed with status code 500''\<rparr>"
       and p = "''Write about tea.''" and cfg = example_config
       and c = "GoogleGenAI (Some ''key-b'')" and g = "''# Tea''"
       and u = "''https://res.example/article.mdx''"
       and m = "''Request failed with status code 500''"
       and jobId = "''job-1''" and fid = "''file-1''" and url = "''https://files.example/p1.txt''"
       and s = empty_server
       and ir = example_item_run and p' = "''Write about tea.''" and gen = text_provider
       and mdl = "''gemini-3-flash-preview''" and item = example_file and b = example_batch
       and g' = "''# Tea''" and m' = "''Request failed with status code 500''"
       and slug = example_slug]
  by (simp add: example_run_def example_config_def getGemini_example valid_key_def sublist_code
        generation_step_def nth_opt_def example_item_run_def text_provider_result
        example_file_def)

text \<open>
  The claim as stated fails in the batch tool: the prompt is fetched, the text generated
  and the file written, the \<^verbatim>\<open>axios.put\<close> fails, and the item is reported
  as failed.
\<close>

theorem batch_reconciliation_failure_reported:
  "fst (processFile_batch text_provider example_slug example_item_run example_file
          ''gemini-3-flash-preview'' example_batch) =
     Not_done ''Tea.txt'' ''Request failed with status code 500'' \<and>
   success (fst (processFile_batch text_provider example_slug example_item_run example_file
          ''gemini-3-flash-preview'' example_batch)) = False \<and>
   effects (snd (processFile_batch text_provider example_slug example_item_run example_file
          ''gemini-3-flash-preview'' example_batch)) =
     [Get ''https://files.example/p1.txt'', Write_file ''tea.mdx'' ''# Tea'',
      Put ''file-1'' 3000]"
  by (simp add: processFile_batch_def text_provider_result example_item_run_def example_file_def
        example_slug_def example_batch_def effect_def after_call_def getNextGemini_def Let_def)

end
